theory Spec2Isabelle
  imports Complex_Main "HOL-Library.List_Lexorder" "HOL-Library.Char_ord"
begin

section \<open>Python values: exceptions, formatting, array helpers\<close>

text \<open>
  Every \<^verbatim>\<open>raise\<close> of the sources is a value of \<open>exn\<close>; a function that can raise
  returns \<open>exn + 'a\<close> with \<open>Inl\<close> for the exception. The string is the message.
\<close>

datatype exn =
    ValueError string
  | TypeError string
  | KeyError string
  | IndexError string
  | RuntimeError string
  | NotImplementedError string
  | InspectionError string

text \<open>Decimal rendering of integers, as \<^verbatim>\<open>str(n)\<close> and \<^verbatim>\<open>f"{n}"\<close> produce it.\<close>

definition digit_char :: "nat \<Rightarrow> char" where
  "digit_char d = ''0123456789'' ! d"

function str_nat :: "nat \<Rightarrow> string" where
  "str_nat n = (if n < 10 then [digit_char n] else str_nat (n div 10) @ [digit_char (n mod 10)])"
  by pat_completeness auto
termination
  by (relation "measure id") auto

declare str_nat.simps [simp del]

definition str_int :: "int \<Rightarrow> string" where
  "str_int i = (if i < 0 then CHR ''-'' # str_nat (nat (- i)) else str_nat (nat i))"

text \<open>
  \<^verbatim>\<open>np.unique(a)\<close>: the sorted distinct values; with \<^verbatim>\<open>return_counts=True\<close> also the
  number of occurrences of each. \<^verbatim>\<open>np.diff\<close>: differences of neighbours.
\<close>

definition np_unique :: "'a::linorder list \<Rightarrow> 'a list" where
  "np_unique xs = sort (remdups xs)"

definition np_counts :: "'a::linorder list \<Rightarrow> nat list" where
  "np_counts xs = map (count_list xs) (np_unique xs)"

fun np_diff :: "int list \<Rightarrow> int list" where
  "np_diff (x # y # zs) = (y - x) # np_diff (y # zs)"
| "np_diff _ = []"

text \<open>\<^verbatim>\<open>np.max\<close> raises \<^verbatim>\<open>ValueError\<close> on an empty array.\<close>

fun np_max :: "'a::linorder list \<Rightarrow> exn + 'a" where
  "np_max [] = Inl (ValueError ''zero-size array to reduction operation maximum which has no identity'')"
| "np_max (x # xs) = Inr (fold max xs x)"

text \<open>Python's \<^verbatim>\<open>int(x)\<close> on a finite float: truncation towards zero, to an unbounded integer.\<close>

definition trunc :: "rat \<Rightarrow> int" where
  "trunc q = (if 0 \<le> q then \<lfloor>q\<rfloor> else \<lceil>q\<rceil>)"

text \<open>
  \<^verbatim>\<open>astype(int)\<close> stores 64-bit integers. A finite number within the int64 range is
  truncated; a number outside it becomes the least int64, as the cast of a float64 array
  gives on x86-64.
\<close>

definition INT64_MIN :: int where
  "INT64_MIN = - (2 ^ 63)"

definition INT64_MAX :: int where
  "INT64_MAX = 2 ^ 63 - 1"

definition astype_int64 :: "rat \<Rightarrow> int" where
  "astype_int64 q =
     (if INT64_MIN \<le> trunc q \<and> trunc q \<le> INT64_MAX then trunc q else INT64_MIN)"

section \<open>Constants (\<^verbatim>\<open>_constants.py\<close>)\<close>

definition N_CAT_LEVEL_MIN :: nat where
  "N_CAT_LEVEL_MIN = 20"

section \<open>Columns\<close>

text \<open>
  A pandas \<^verbatim>\<open>Series\<close> is seen by the inspection code only through library calls. A cell
  records what those calls return for one row: its text \<^verbatim>\<open>str(v)\<close>, its numeric reading
  under \<^verbatim>\<open>pd.to_numeric(series, errors="coerce")\<close> (\<open>None\<close> is NaN; numeric readings are
  finite), whether \<^verbatim>\<open>isna()\<close> holds, and the row's index label. The whole-column casts
  that either return or raise are fields of the series.
\<close>

record cell =
  as_str :: string
  as_num :: "rat option"
  is_na :: bool
  label :: int

datatype dtype = ObjectDtype | StringDtype | CategoricalDtype nat dtype | IntDtype | OtherDtype

record series =
  cells :: "cell list"
  dtype :: dtype
  casts_int :: bool
  kind_int :: bool
  float_roundtrip :: bool
  kind_float :: bool
  casts_float :: bool
  unique_dropped :: "exn + nat list"
  unique_all :: "nat option"

text \<open>
  \<open>casts_int\<close>: \<^verbatim>\<open>series.astype(int)\<close> returns. \<open>kind_int\<close>: the dtype kind after
  \<^verbatim>\<open>convert_dtypes(..., convert_floating=False)\<close> is \<^verbatim>\<open>"i"\<close> or \<^verbatim>\<open>"b"\<close>.
  \<open>float_roundtrip\<close>: \<^verbatim>\<open>series.astype(float).astype(str)\<close> returns and equals the data.
  \<open>kind_float\<close>: the dtype kind after \<^verbatim>\<open>convert_dtypes(..., convert_integer=False)\<close> is
  \<^verbatim>\<open>"f"\<close>. \<open>casts_float\<close>: \<^verbatim>\<open>series.astype(float)\<close> returns. \<open>dtype\<close>: the class of the
  dtype as \<^verbatim>\<open>select_dtypes\<close> sees it; \<open>CategoricalDtype n d\<close> has \<open>n\<close> categories of
  dtype \<open>d\<close>. \<^verbatim>\<open>np.unique\<close> on the values themselves compares and sorts them as Python
  does (1 and 1.0 are one value, a text and a number cannot be ordered):
  \<open>unique_dropped\<close> is the array of counts of \<^verbatim>\<open>np.unique(series.dropna(), return_counts=True)\<close>,
  or the exception it raises; \<open>unique_all\<close> is \<^verbatim>\<open>len(np.unique(series))\<close>, or \<open>None\<close> when
  that call raises \<^verbatim>\<open>TypeError\<close>.
\<close>

definition astype_str :: "series \<Rightarrow> string list" where
  "astype_str s = map as_str (cells s)"

definition to_numeric :: "series \<Rightarrow> rat option list" where
  "to_numeric s = map as_num (cells s)"

definition dropna_num :: "rat option list \<Rightarrow> rat list" where
  "dropna_num forced = [x. Some x \<leftarrow> forced]"

text \<open>The column \<^verbatim>\<open>pd.Series(xs)\<close> of dtype \<^verbatim>\<open>int64\<close> with the default index.\<close>

definition int_column :: "int list \<Rightarrow> series" where
  "int_column xs =
     \<lparr> cells = map (\<lambda>(i, x). \<lparr> as_str = str_int x, as_num = Some (of_int x), is_na = False,
                                 label = int i \<rparr>) (enumerate 0 xs),
       dtype = IntDtype,
       casts_int = True, kind_int = True, float_roundtrip = False, kind_float = False,
       casts_float = True,
       unique_dropped = Inr (np_counts xs), unique_all = Some (length (np_unique xs)) \<rparr>"

section \<open>Numeric-coercion probe (\<^verbatim>\<open>inspection.py\<close>)\<close>

definition converts_to_int :: "series \<Rightarrow> bool" where
  "converts_to_int s = (if casts_int s then True else kind_int s)"

definition converts_to_float :: "series \<Rightarrow> bool" where
  "converts_to_float s = (if float_roundtrip s then True else kind_float s)"

section \<open>Ordinal check\<close>

text \<open>
  \<^verbatim>\<open>prob_unq_ordinals\<close>: the loop \<^verbatim>\<open>for i in range(1, n_samples - 1)\<close> multiplies
  \<^verbatim>\<open>p\<close> by \<^verbatim>\<open>(ordinal_max - i) / ordinal_max\<close>. The product is taken over the rationals;
  Python rounds each step to a double.
\<close>

definition prob_unq_ordinals :: "int \<Rightarrow> int \<Rightarrow> rat" where
  "prob_unq_ordinals n_samples ordinal_max =
     (if n_samples > ordinal_max then 0
      else fold (\<lambda>i p. p * (of_int (ordinal_max - i) / of_int ordinal_max))
             [1 .. n_samples - 2] 1)"

definition maybe_large_ordinal :: "rat list \<Rightarrow> exn + bool" where
  "maybe_large_ordinal xs =
     (case np_max xs of
        Inl e \<Rightarrow> Inl e
      | Inr m \<Rightarrow> Inr (prob_unq_ordinals (int (length xs)) (trunc m) \<ge> 1 / 2))"

text \<open>
  \<^verbatim>\<open>looks_ordinal\<close>. \<open>dropped\<close> is a NaN-free array of finite numbers, so
  \<^verbatim>\<open>converts_to_int(dropped)\<close> holds and \<^verbatim>\<open>dropped.astype(int)\<close> returns the values cast
  to int64 (\<open>astype_int64\<close>); the two early returns guarded by them are not taken. Past the
  all-NaN test \<open>ints\<close> is not empty, so \<^verbatim>\<open>ints.min()\<close> and \<^verbatim>\<open>ints.max()\<close> are the least and
  greatest elements (lemmas \<open>fold_min_Min\<close>, \<open>fold_max_Max\<close>). \<^verbatim>\<open>np.diff\<close> subtracts
  modulo \<open>2 ^ 64\<close>; the gaps between sorted distinct int64 values lie between 1 and
  \<open>2 ^ 64 - 1\<close>, so two of them are equal modulo \<open>2 ^ 64\<close> exactly when they are equal, and
  \<^verbatim>\<open>len(unq_diffs)\<close> is the number of distinct unbounded differences.
  \<^verbatim>\<open>int(np.max(series))\<close> in \<^verbatim>\<open>maybe_large_ordinal\<close> is Python's unbounded \<^verbatim>\<open>int\<close>.
\<close>

definition fmt_range :: "int list \<Rightarrow> string" where
  "fmt_range ints =
     ''['' @ str_int (fold min (tl ints) (hd ints)) @ '', ''
          @ str_int (fold max (tl ints) (hd ints)) @ '']''"

definition looks_ordinal :: "series \<Rightarrow> exn + (bool \<times> string)" where
  "looks_ordinal s =
     (let forced = to_numeric s in
      if list_all (\<lambda>x. x = None) forced then Inr (False, '''')
      else
        let dropped = dropna_num forced;
            ints = map astype_int64 dropped;
            unq_ints = np_unique ints;
            cnts = np_counts ints
        in
        if list_all (\<lambda>c. c = 1) cnts then
          (case maybe_large_ordinal dropped of
             Inl e \<Rightarrow> Inl e
           | Inr large \<Rightarrow>
               if large then
                 Inr (True, ''All unique values in large range '' @ fmt_range ints
                            @ '' relative to number of samples'')
               else Inr (False, ''All unique values''))
        else
          let diffs = np_diff (sort unq_ints);
              unq_diffs = np_unique diffs
          in
          if length unq_diffs = 1 then
            (let vmin = fold min (tl ints) (hd ints);
                 vmax = fold max (tl ints) (hd ints)
             in if vmin = 0 \<and> vmax = 1 then
                  Inr (True, ''Binary {'' @ str_int vmin @ '', '' @ str_int vmax @ ''} indicator'')
                else Inr (True, ''Increasing integers in '' @ fmt_range ints))
          else
            (case np_max unq_ints of
               Inl e \<Rightarrow> Inl e
             | Inr imax \<Rightarrow>
                 if imax \<in> set [4, 6] then
                   Inr (True, ''Largest int is a common 0-indexed Likert-type scale value: ''
                              @ str_int imax)
                 else if imax \<in> set [5, 7] then
                   Inr (True, ''Largest int is a common Likert-type scale value: '' @ str_int imax)
                 else if imax \<in> set [10, 100] then
                   Inr (True, ''Largest int is a common scale max: '' @ str_int imax)
                 else if imax \<in> set [9, 99] then
                   Inr (True, ''Largest int is a common 0-indexed scale max: '' @ str_int imax)
                 else Inr (False, '''')))"

text \<open>
  Names for two values of \<^verbatim>\<open>looks_ordinal\<close>: \<^verbatim>\<open>ints\<close>, the non-missing numeric values
  cast to int, and \<^verbatim>\<open>diffs\<close>, the gaps between neighbouring sorted distinct values.
\<close>

definition column_ints :: "series \<Rightarrow> int list" where
  "column_ints s = map astype_int64 (dropna_num (to_numeric s))"

definition gaps :: "int list \<Rightarrow> int list" where
  "gaps xs = np_diff (np_unique xs)"

section \<open>Target sanitation (\<^verbatim>\<open>cleaning.py\<close>)\<close>

text \<open>
  A classification target is a column of class labels; \<open>None\<close> is NaN. \<^verbatim>\<open>np.unique\<close>
  sorts NaN last and counts it as one level. A boolean mask keeps the rows where it is true.
\<close>

definition np_unique_nan :: "int option list \<Rightarrow> int option list" where
  "np_unique_nan ys =
     map Some (np_unique [y. Some y \<leftarrow> ys]) @ (if None \<in> set ys then [None] else [])"

definition mask_rows :: "bool list \<Rightarrow> 'a list \<Rightarrow> 'a list" where
  "mask_rows keep xs = map snd (filter fst (zip keep xs))"

text \<open>\<^verbatim>\<open>LabelEncoder().fit_transform\<close>: each label becomes its position among the sorted classes.\<close>

fun index_of :: "'a list \<Rightarrow> 'a \<Rightarrow> nat" where
  "index_of [] y = 0"
| "index_of (x # xs) y = (if x = y then 0 else Suc (index_of xs y))"

definition label_encode :: "int list \<Rightarrow> nat list" where
  "label_encode ys = map (index_of (np_unique ys)) ys"

text \<open>
  \<^verbatim>\<open>encode_target(df, target)\<close>; the data frame is its list of rows, in step with the target.
  The warning is not part of the result.
\<close>

definition encode_target :: "'r list \<Rightarrow> int option list \<Rightarrow> 'r list \<times> nat list" where
  "encode_target df target =
     (let unqs = np_unique_nan target;
          cnts = map (count_list target) unqs;
          idx = map (\<lambda>c. c \<le> 20) cnts;
          (df1, target1) =
            (if length (filter id idx) > 0 then
               (let idx_drop = map (\<lambda>y. y \<notin> set (mask_rows idx unqs)) target
                in (mask_rows idx_drop df, mask_rows idx_drop target))
             else (df, target));
          idx_drop = map (\<lambda>y. y \<noteq> None) target1;
          df2 = mask_rows idx_drop df1;
          target2 = mask_rows idx_drop target1;
          encoded = label_encode (map the target2)
      in (df2, encoded))"

section \<open>Prepared data (\<^verbatim>\<open>prepare.py\<close>)\<close>

text \<open>
  A table (\<^verbatim>\<open>DataFrame\<close> or \<^verbatim>\<open>Series\<close>) is its list of rows, each with its index label;
  \<^verbatim>\<open>len\<close> is the number of rows. \<^verbatim>\<open>reset_index(drop=True)\<close> relabels the rows
  0, 1, 2, ...; assigning \<^verbatim>\<open>.index\<close> replaces the labels.
\<close>

type_synonym 'a table = "(int \<times> 'a) list"

definition index :: "'a table \<Rightarrow> int list" where
  "index t = map fst t"

definition reset_index :: "'a table \<Rightarrow> 'a table" where
  "reset_index t = zip (map int [0 ..< length t]) (map snd t)"

definition set_index :: "int list \<Rightarrow> 'a table \<Rightarrow> 'a table" where
  "set_index labels t = zip labels (map snd t)"

definition validate ::
  "'a table \<Rightarrow> 'b table \<Rightarrow> 'c table \<Rightarrow> 'd table
     \<Rightarrow> exn + ('a table \<times> 'b table \<times> 'c table \<times> 'd table)" where
  "validate X X_cont X_cat y =
     (let n_samples = length X in
      if length X_cont \<noteq> n_samples then
        Inl (ValueError (''Continuous data number of samples ('' @ str_nat (length X_cont)
               @ '') does not match number of samples in processed data (''
               @ str_nat n_samples @ '')''))
      else if length X_cat \<noteq> n_samples then
        Inl (ValueError (''Categorical data number of samples ('' @ str_nat (length X_cat)
               @ '') does not match number of samples in processed data (''
               @ str_nat n_samples @ '')''))
      else if length y \<noteq> n_samples then
        Inl (ValueError (''Target number of samples ('' @ str_nat (length X_cat)
               @ '') does not match number of samples in processed data (''
               @ str_nat n_samples @ '')''))
      else
        (let X' = reset_index X in
         Inr (X', set_index (index X') X_cont, set_index (index X') X_cat,
              set_index (index X') y)))"

section \<open>Inspection results and the inflation detector (\<^verbatim>\<open>inspection.py\<close>)\<close>

datatype ColumnType = Id | Time | Const | Float | Ordinal | Categorical | BigCat | Nyan | Other

record InflationInfo =
  col :: string
  to_deflate :: "string list"
  to_keep :: "string list"
  n_deflate :: nat
  n_keep :: nat
  n_total :: nat

text \<open>
  A Python \<^verbatim>\<open>dict\<close> is an association list in insertion order with distinct keys:
  storing under a present key replaces the value in place, under a new key appends.
\<close>

type_synonym ('k, 'v) dict = "('k \<times> 'v) list"

definition dict_set :: "('k, 'v) dict \<Rightarrow> 'k \<Rightarrow> 'v \<Rightarrow> ('k, 'v) dict" where
  "dict_set d k v =
     (if k \<in> fst ` set d then map (\<lambda>(k', v'). if k' = k then (k', v) else (k', v')) d
      else d @ [(k, v)])"

definition dict_of :: "('k \<times> 'v) list \<Rightarrow> ('k, 'v) dict" where
  "dict_of kvs = fold (\<lambda>(k, v) d. dict_set d k v) kvs []"


text \<open>
  \<^verbatim>\<open>InspectionInfo\<close> keeps the kind and the descriptions; \<^verbatim>\<open>pad\<close>, \<^verbatim>\<open>lines\<close> and
  \<^verbatim>\<open>is_empty\<close> are computed from them for printing.
\<close>

record InspectionInfo =
  kind :: ColumnType
  descs :: "(string, string) dict"

text \<open>A data frame of the inspection code: its columns by name. \<^verbatim>\<open>df[col]\<close> raises
  \<^verbatim>\<open>KeyError\<close> for an absent column.\<close>

type_synonym dataframe = "(string \<times> series) list"

definition getitem :: "dataframe \<Rightarrow> string \<Rightarrow> exn + series" where
  "getitem df c = (case map_of df c of None \<Rightarrow> Inl (KeyError c) | Some s \<Rightarrow> Inr s)"

text \<open>The body of the loop \<^verbatim>\<open>for col in all_cats\<close> of \<^verbatim>\<open>detect_big_cats\<close>, and the loop.\<close>

definition inflation_of :: "string \<Rightarrow> series \<Rightarrow> InflationInfo option" where
  "inflation_of c s =
     (let strs = astype_str s;
          unqs = np_unique strs;
          cnts = np_counts strs;
          n_total = length unqs
      in if n_total \<le> 2 then None
         else
           let keep_idx = map (\<lambda>n. n \<ge> N_CAT_LEVEL_MIN) cnts in
           if list_all id keep_idx then None
           else
             let n_keep = length (filter id keep_idx);
                 n_deflate = length keep_idx - n_keep
             in Some \<lparr> col = c,
                       to_deflate = mask_rows (map Not keep_idx) unqs,
                       to_keep = mask_rows keep_idx unqs,
                       n_deflate = n_deflate, n_keep = n_keep, n_total = n_total \<rparr>)"

fun inflation_loop ::
  "dataframe \<Rightarrow> string list \<Rightarrow> InflationInfo list \<Rightarrow> exn + InflationInfo list" where
  "inflation_loop df [] inflation_infos = Inr inflation_infos"
| "inflation_loop df (c # rest) inflation_infos =
     (case getitem df c of
        Inl e \<Rightarrow> Inl e
      | Inr s \<Rightarrow>
          (case inflation_of c s of
             None \<Rightarrow> inflation_loop df rest inflation_infos
           | Some info \<Rightarrow> inflation_loop df rest (inflation_infos @ [info])))"

definition detect_big_cats ::
  "dataframe \<Rightarrow> (string, nat) dict \<Rightarrow> string list
     \<Rightarrow> exn + ((string, nat) dict \<times> InflationInfo list \<times> InspectionInfo)" where
  "detect_big_cats df unique_counts all_cats =
     (let big_cats = filter (\<lambda>c. case map_of unique_counts c of
                                    None \<Rightarrow> False | Some n \<Rightarrow> n \<ge> 20) all_cats;
          big_cols = dict_of (map (\<lambda>c. (c, str_nat (the (map_of unique_counts c)) @ '' levels''))
                                big_cats);
          inspect_info = \<lparr> kind = BigCat, descs = big_cols \<rparr>
      in case inflation_loop df all_cats [] of
           Inl e \<Rightarrow> Inl e
         | Inr inflation_infos \<Rightarrow>
             Inr (dict_of (map (\<lambda>c. (c, the (map_of unique_counts c))) big_cats),
                  inflation_infos, inspect_info))"

text \<open>The column \<^verbatim>\<open>pd.Series(xs)\<close> of dtype \<^verbatim>\<open>object\<close> holding texts that are not numbers.\<close>

definition str_column :: "string list \<Rightarrow> series" where
  "str_column xs =
     \<lparr> cells = map (\<lambda>(i, x). \<lparr> as_str = x, as_num = None, is_na = False, label = int i \<rparr>)
                   (enumerate 0 xs),
       dtype = ObjectDtype,
       casts_int = False, kind_int = False, float_roundtrip = False, kind_float = False,
       casts_float = False,
       unique_dropped = Inr (np_counts xs), unique_all = Some (length (np_unique xs)) \<rparr>"

section \<open>Continuous NaN handling (\<^verbatim>\<open>cleaning.py\<close>)\<close>

text \<open>
  A data frame of the cleaning code: the row labels and the columns by name, every column
  holding one value per row, \<open>None\<close> for NaN. \<^verbatim>\<open>df.shape\<close> is (rows, columns).
\<close>

record 'v frame =
  row_labels :: "int list"
  columns :: "(string \<times> 'v option list) list"

definition shape :: "'v frame \<Rightarrow> nat \<times> nat" where
  "shape df = (length (row_labels df), length (columns df))"

definition loc_rows :: "bool list \<Rightarrow> 'v frame \<Rightarrow> 'v frame" where
  "loc_rows keep df =
     \<lparr> row_labels = mask_rows keep (row_labels df),
       columns = map (\<lambda>(c, vs). (c, mask_rows keep vs)) (columns df) \<rparr>"

text \<open>\<^verbatim>\<open>df.drop(columns=drops, errors="ignore")\<close> and \<^verbatim>\<open>df[names]\<close>.\<close>

definition drop_columns :: "string list \<Rightarrow> 'v frame \<Rightarrow> 'v frame" where
  "drop_columns drops df = df \<lparr> columns := filter (\<lambda>(c, vs). c \<notin> set drops) (columns df) \<rparr>"

fun select_columns ::
  "(string \<times> 'v option list) list \<Rightarrow> string list \<Rightarrow> exn + (string \<times> 'v option list) list" where
  "select_columns cols [] = Inr []"
| "select_columns cols (c # cs) =
     (case map_of cols c of
        None \<Rightarrow> Inl (KeyError c)
      | Some vs \<Rightarrow>
          (case select_columns cols cs of
             Inl e \<Rightarrow> Inl e
           | Inr rest \<Rightarrow> Inr ((c, vs) # rest)))"

text \<open>\<^verbatim>\<open>dropna(axis="columns")\<close> removes the columns that hold a NaN,
  \<^verbatim>\<open>dropna(axis="index")\<close> the rows that hold one.\<close>

definition dropna_columns :: "'v frame \<Rightarrow> 'v frame" where
  "dropna_columns df = df \<lparr> columns := filter (\<lambda>(c, vs). None \<notin> set vs) (columns df) \<rparr>"

definition dropna_index :: "'v frame \<Rightarrow> 'v frame" where
  "dropna_index df =
     loc_rows (fold (\<lambda>(c, vs) keep. map (\<lambda>(k, v). k \<and> v \<noteq> None) (zip keep vs))
                 (columns df) (map (\<lambda>l. True) (row_labels df))) df"

text \<open>
  Label alignment, as in \<^verbatim>\<open>X[target] = y\<close> and \<^verbatim>\<open>pd.concat(..., axis=1)\<close>: a column with
  the same labels is taken as it is; otherwise each label is looked up, a missing one giving
  NaN. Reindexing from duplicate labels raises.
\<close>

definition reindex :: "int list \<Rightarrow> int list \<Rightarrow> 'v option list \<Rightarrow> exn + 'v option list" where
  "reindex new_labels old_labels vs =
     (if new_labels = old_labels then Inr vs
      else if \<not> distinct old_labels then
        Inl (ValueError ''cannot reindex on an axis with duplicate labels'')
      else Inr (map (\<lambda>l. case map_of (zip old_labels vs) l of None \<Rightarrow> None | Some v \<Rightarrow> v)
                  new_labels))"

fun reindex_columns ::
  "int list \<Rightarrow> int list \<Rightarrow> (string \<times> 'v option list) list
     \<Rightarrow> exn + (string \<times> 'v option list) list" where
  "reindex_columns new_labels old_labels [] = Inr []"
| "reindex_columns new_labels old_labels ((c, vs) # cols) =
     (case reindex new_labels old_labels vs of
        Inl e \<Rightarrow> Inl e
      | Inr vs' \<Rightarrow>
          (case reindex_columns new_labels old_labels cols of
             Inl e \<Rightarrow> Inl e
           | Inr rest \<Rightarrow> Inr ((c, vs') # rest)))"

definition setitem :: "'v frame \<Rightarrow> string \<Rightarrow> int list \<times> 'v option list \<Rightarrow> exn + 'v frame" where
  "setitem df c y =
     (case reindex (row_labels df) (fst y) (snd y) of
        Inl e \<Rightarrow> Inl e
      | Inr vs \<Rightarrow> Inr (df \<lparr> columns := dict_set (columns df) c vs \<rparr>))"

definition concat_columns :: "'v frame \<Rightarrow> 'v frame \<Rightarrow> exn + 'v frame" where
  "concat_columns a b =
     (let labels = row_labels a @ filter (\<lambda>l. l \<notin> set (row_labels a)) (row_labels b) in
      case reindex_columns labels (row_labels a) (columns a) of
        Inl e \<Rightarrow> Inl e
      | Inr ca \<Rightarrow>
          (case reindex_columns labels (row_labels b) (columns b) of
             Inl e \<Rightarrow> Inl e
           | Inr cb \<Rightarrow> Inr \<lparr> row_labels = labels, columns = ca @ cb \<rparr>))"

text \<open>
  \<^verbatim>\<open>NanHandling\<close> is declared in \<^verbatim>\<open>src/enumerables.py\<close>, which is not among the sources.
  Its members are the four that \<^verbatim>\<open>handle_continuous_nans\<close> names; their order of
  declaration and their values are a parameter, the list \<open>members\<close> of (member, value).
  A list of strings is formatted as Python prints it, for values without quotes or escapes.
\<close>

datatype NanHandling = Drop | Mean | Median | Impute

definition py_repr_list :: "string list \<Rightarrow> string" where
  "py_repr_list xs =
     ''['' @ concat (map (\<lambda>(i, x). (if i = 0 then '''' else '', '') @ [CHR 0x27] @ x @ [CHR 0x27])
                        (enumerate 0 xs)) @ '']''"

definition other_strategies :: "(NanHandling \<times> string) list \<Rightarrow> string list" where
  "other_strategies members = map snd (filter (\<lambda>(na, v). na \<noteq> Drop) members)"

definition exhaustion_message :: "(NanHandling \<times> string) list \<Rightarrow> string" where
  "exhaustion_message members =
     ''Dropping NaNs resulted in either no remaining samples or features. ''
     @ ''Consider changing the option `--nan` to another valid option. Other ''
     @ ''valid options: '' @ py_repr_list (other_strategies members)"

text \<open>
  \<^verbatim>\<open>handle_continuous_nans\<close>. The imputers of scikit-learn are the parameter \<open>impute\<close>,
  which returns the imputed table for the strategy.
\<close>

definition handle_continuous_nans ::
  "(NanHandling \<times> string) list \<Rightarrow> (NanHandling \<Rightarrow> 'v frame \<Rightarrow> exn + 'v frame)
     \<Rightarrow> 'v frame \<Rightarrow> string \<Rightarrow> string list \<Rightarrow> NanHandling \<Rightarrow> exn + 'v frame" where
  "handle_continuous_nans members impute df0 target cat_cols nans =
     (case map_of (columns df0) target of
        None \<Rightarrow> Inl (KeyError target)
      | Some t0 \<Rightarrow>
          let idx = map (\<lambda>v. v \<noteq> None) t0;
              df = loc_rows idx df0;
              drops = cat_cols @ [target];
              X = drop_columns drops df
          in
          case select_columns (columns df) cat_cols of
            Inl e \<Rightarrow> Inl e
          | Inr cat_columns \<Rightarrow>
              let X_cat = \<lparr> row_labels = row_labels df, columns = cat_columns \<rparr>;
                  y = (row_labels df, mask_rows idx t0);
                  cleaned =
                    (if nans = Drop then
                       (let X_clean = dropna_index (dropna_columns X) in
                        if fst (shape X_clean) = 0 \<or> snd (shape X_clean) = 0 then
                          Inl (RuntimeError (exhaustion_message members))
                        else Inr X_clean)
                     else if nans \<in> set [Mean, Median] then impute nans X
                     else if nans = Impute then impute nans X
                     else Inl (NotImplementedError ''Unhandled enum case''))
              in
              case cleaned of
                Inl e \<Rightarrow> Inl e
              | Inr X_clean \<Rightarrow>
                  (case setitem X_clean target y of
                     Inl e \<Rightarrow> Inl e
                   | Inr X_clean' \<Rightarrow> concat_columns X_cat X_clean'))"

text \<open>Every column of a data frame has one value per row.\<close>

definition well_formed :: "'v frame \<Rightarrow> bool" where
  "well_formed df = (\<forall>(c, vs)\<in>set (columns df). length vs = length (row_labels df))"

section \<open>Float, identifier and time checks (\<^verbatim>\<open>inspection.py\<close>)\<close>

definition mean_bool :: "bool list \<Rightarrow> rat" where
  "mean_bool bs = of_nat (length (filter id bs)) / of_nat (length bs)"

definition looks_floatlike :: "series \<Rightarrow> exn + (bool \<times> string)" where
  "looks_floatlike s =
     (if converts_to_int s then Inr (False, ''Converts to int'')
      else
        case looks_ordinal s of
          Inl e \<Rightarrow> Inl e
        | Inr ord \<Rightarrow>
            if fst ord then Inr (False, ''Looks ordinal'')
            else if casts_float s then
              Inr (True, ''All values are not integers and convert to float'')
            else
              let forced = to_numeric s;
                  idx = map (\<lambda>x. x = None) forced
              in
              if list_all id idx then Inr (False, ''No values parse as valid floats'')
              else if mean_bool idx > 2 / 10 then
                (let odd_vals = np_unique (mask_rows idx (astype_str s));
                     desc = (if length odd_vals > 5
                             then butlast (py_repr_list (take 5 odd_vals)) @ '' ...]''
                             else py_repr_list odd_vals)
                 in Inr (True, ''More than 20% of values parse as floats, ''
                               @ ''but couldn'' @ [CHR 0x27] @ ''t parse values: '' @ desc))
              else Inr (False, ''Less than 20% of values parse as floats''))"

text \<open>
  \<^verbatim>\<open>looks_id_like\<close>. The first uniqueness test is on the texts; the second,
  \<^verbatim>\<open>np.unique(dropped, return_counts=True)\<close>, is on the non-missing values themselves, and
  \<^verbatim>\<open>len(unqs)\<close> is the length of its array of counts.
\<close>

definition looks_id_like :: "series \<Rightarrow> exn + (bool \<times> string)" where
  "looks_id_like s =
     (case looks_floatlike s of
        Inl e \<Rightarrow> Inl e
      | Inr fl \<Rightarrow>
          if fst fl then Inr (False, ''Appears float-like'')
          else
            case dtype s of
              CategoricalDtype n_categories d \<Rightarrow>
                if of_nat n_categories > (of_nat (length (cells s)) / 2 :: rat) then
                  Inr (True, ''More unique values than one half of number of non-NaN samples'')
                else Inr (False, ''Is Pandas categorical type already'')
            | _ \<Rightarrow>
                let cnts = np_counts (astype_str s) in
                if list_all (\<lambda>c. c = 1) cnts then
                  Inr (True, ''All values including possible NaNs are unique'')
                else
                  let dropped = filter (\<lambda>c. \<not> is_na c) (cells s) in
                  if of_nat (length dropped) < (1 / 2 * of_nat (length (cells s)) :: rat) then
                    Inr (False, ''More than half of data is NaN'')
                  else
                    case unique_dropped s of
                      Inl e \<Rightarrow> Inl e
                    | Inr cnts \<Rightarrow>
                        if list_all (\<lambda>c. c = 1) cnts then
                          Inr (True, ''All non-NaN values are unique'')
                        else if of_nat (length cnts) \<ge> (of_nat (length dropped) / 2 :: rat) then
                          Inr (True,
                            ''More unique values than one half of number of non-NaN samples'')
                        else Inr (False, ''''))"

text \<open>
  What the time check needs from outside the column: whether \<^verbatim>\<open>int(s)\<close>, \<^verbatim>\<open>float(s)\<close>
  and \<^verbatim>\<open>dateutil.parser.parse(s, fuzzy=False)\<close> return for a text (\<^verbatim>\<open>parse\<close> raising
  \<^verbatim>\<open>ValueError\<close> otherwise), and how Python formats \<^verbatim>\<open>f"{p*100:< 2.2f}"\<close>.
\<close>

record lib =
  int_parses :: "string \<Rightarrow> bool"
  float_parses :: "string \<Rightarrow> bool"
  date_parses :: "string \<Rightarrow> bool"
  fmt_percent :: "rat \<Rightarrow> string"

definition is_timelike :: "lib \<Rightarrow> string \<Rightarrow> bool" where
  "is_timelike L s =
     (if int_parses L s then False
      else if float_parses L s then False
      else if date_parses L s then True
      else False)"

text \<open>\<^verbatim>\<open>series.iloc[idx]\<close> selects by position, \<^verbatim>\<open>series.loc[idx]\<close> by index label: every row
  that carries the label, for each label in turn; an absent label raises \<^verbatim>\<open>KeyError\<close>.\<close>

definition iloc :: "series \<Rightarrow> nat list \<Rightarrow> exn + string list" where
  "iloc s idx =
     (if \<forall>i\<in>set idx. i < length (cells s) then Inr (map (\<lambda>i. as_str (cells s ! i)) idx)
      else Inl (IndexError ''positional indexers are out-of-bounds''))"

definition loc :: "series \<Rightarrow> nat list \<Rightarrow> exn + string list" where
  "loc s idx =
     (if \<forall>i\<in>set idx. int i \<in> label ` set (cells s) then
        Inr (concat (map (\<lambda>i. map as_str (filter (\<lambda>c. label c = int i) (cells s))) idx))
      else Inl (KeyError ''not in index''))"

text \<open>The column \<open>s\<close> under the index labels \<open>ls\<close>, as left by a row filter such as
  \<^verbatim>\<open>dropna\<close> that keeps the labels of the rows it keeps.\<close>

definition with_index :: "int list \<Rightarrow> series \<Rightarrow> series" where
  "with_index ls s = s \<lparr> cells := map (\<lambda>(l, c). c \<lparr> label := l \<rparr>) (zip ls (cells s)) \<rparr>"

text \<open>
  \<^verbatim>\<open>looks_timelike\<close>; \<open>perm\<close> is the value of \<^verbatim>\<open>np.random.permutation(N)\<close>. The two
  fractions are compared as rationals.
\<close>

definition looks_timelike :: "lib \<Rightarrow> nat list \<Rightarrow> series \<Rightarrow> exn + (bool \<times> string)" where
  "looks_timelike L perm s =
     (if converts_to_int s then Inr (False, ''Converts to int'')
      else if converts_to_float s then Inr (False, ''Converts to float'')
      else
        let level_counts = np_counts (astype_str s) in
        if list_all (\<lambda>c. c > N_CAT_LEVEL_MIN) level_counts then
          Inr (False, ''Looks like well-sampled categorical'')
        else
          let N = length (cells s);
              n_subsamp = nat (min (max \<lceil>(1 / 2 :: rat) * of_nat N\<rceil> 500) (int N));
              idx = take n_subsamp perm
          in
          case iloc s idx of
            Inl e \<Rightarrow> Inl e
          | Inr sample \<Rightarrow>
              let percent = (of_nat (length (filter (is_timelike L) sample)) / of_nat n_subsamp :: rat)
              in
              if percent \<ge> 1 then Inr (True, ''100% of data parses as datetime'')
              else if percent > 1 / 3 then
                (case loc s idx of
                   Inl e \<Rightarrow> Inl e
                 | Inr rows \<Rightarrow>
                     let p = mean_bool (map (is_timelike L) rows) in
                     if p > 1 / 2 then
                       Inr (True, fmt_percent L p @ ''% of data appears parseable as datetime data'')
                     else Inr (False, ''''))
              else Inr (False, ''''))"

text \<open>An \<^verbatim>\<open>object\<close> column of texts that all read as numbers, such as \<^verbatim>\<open>["0.5", "0.25"]\<close>:
  \<^verbatim>\<open>astype(int)\<close> raises on the first text with a fraction, \<^verbatim>\<open>astype(float)\<close> returns
  and prints back to the same texts.\<close>

definition float_text_column :: "(string \<times> rat) list \<Rightarrow> series" where
  "float_text_column xs =
     \<lparr> cells = map (\<lambda>(i, (t, q)). \<lparr> as_str = t, as_num = Some q, is_na = False, label = int i \<rparr>)
                   (enumerate 0 xs),
       dtype = ObjectDtype,
       casts_int = False, kind_int = False, float_roundtrip = True, kind_float = False,
       casts_float = True,
       unique_dropped = Inr (np_counts (map fst xs)),
       unique_all = Some (length (np_unique (map fst xs))) \<rparr>"

section \<open>Categorical and constant checks, and the per-column cascade (\<^verbatim>\<open>inspection.py\<close>)\<close>





section \<open>Aggregation (\<^verbatim>\<open>inspection.py\<close>)\<close>

























section \<open>Facts about the array helpers\<close>

lemma count_list_distinct: "distinct xs \<longleftrightarrow> (\<forall>x\<in>set xs. count_list xs x = 1)"
proof (induction xs)
  case Nil
  show ?case by simp
next
  case (Cons a xs)
  show ?case
  proof
    assume d: "distinct (a # xs)"
    then have "a \<notin> set xs" and "distinct xs" by simp_all
    with Cons show "\<forall>x\<in>set (a # xs). count_list (a # xs) x = 1"
      by (auto simp: count_list_0_iff)
  next
    assume h: "\<forall>x\<in>set (a # xs). count_list (a # xs) x = 1"
    then have "count_list xs a = 0" by simp
    then have a: "a \<notin> set xs" by (simp add: count_list_0_iff)
    have "\<forall>x\<in>set xs. count_list xs x = 1"
    proof
      fix x assume x: "x \<in> set xs"
      with a have "x \<noteq> a" by auto
      with h x show "count_list xs x = 1" by auto
    qed
    with Cons a show "distinct (a # xs)" by simp
  qed
qed

lemma np_counts_all_one: "list_all (\<lambda>c. c = 1) (np_counts xs) \<longleftrightarrow> distinct xs"
  by (simp add: np_counts_def np_unique_def list_all_iff count_list_distinct)

lemma length_np_unique: "length (np_unique xs) = card (set xs)"
  by (simp add: np_unique_def length_remdups_card_conv)

lemma np_unique_single_gap: "length (np_unique ds) = 1 \<longleftrightarrow> (\<exists>g. set ds = {g})"
  by (simp add: length_np_unique card_1_singleton_iff)

lemma sort_np_unique: "sort (np_unique xs) = np_unique xs"
  by (simp add: np_unique_def sorted_sort_id)

lemma np_max_Max: "xs \<noteq> [] \<Longrightarrow> np_max xs = Inr (Max (set xs))"
  by (cases xs) (simp_all add: Max.set_eq_fold[symmetric])

lemma set_np_unique: "set (np_unique xs) = set xs"
  by (simp add: np_unique_def)

lemma trunc_of_int: "trunc (of_int i) = i"
  by (simp add: trunc_def)

lemma astype_int64_of_int:
  "INT64_MIN \<le> i \<Longrightarrow> i \<le> INT64_MAX \<Longrightarrow> astype_int64 (of_int i) = i"
  by (simp add: astype_int64_def trunc_of_int)

lemma all_none_dropna: "list_all (\<lambda>x. x = None) forced \<longleftrightarrow> dropna_num forced = []"
  by (induction forced) (auto simp: dropna_num_def split: option.splits)

lemma fold_min_Min: "xs \<noteq> [] \<Longrightarrow> fold min (tl xs) (hd xs) = Min (set xs)"
  using Min.set_eq_fold[of "hd xs" "tl xs"] by simp

lemma fold_max_Max: "xs \<noteq> [] \<Longrightarrow> fold max (tl xs) (hd xs) = Max (set xs)"
  using Max.set_eq_fold[of "hd xs" "tl xs"] by simp

lemma np_max_np_unique: "xs \<noteq> [] \<Longrightarrow> np_max (np_unique xs) = Inr (Max (set xs))"
proof -
  assume ne: "xs \<noteq> []"
  then have "np_unique xs \<noteq> []"
    using set_np_unique[of xs] by (metis set_empty)
  then show ?thesis using np_max_Max[of "np_unique xs"] by (simp add: set_np_unique)
qed

lemma looks_ordinal_empty:
  "column_ints s = [] \<Longrightarrow> looks_ordinal s = Inr (False, '''')"
  by (simp add: looks_ordinal_def column_ints_def all_none_dropna Let_def)

lemma looks_ordinal_distinct:
  assumes "column_ints s \<noteq> []" and "distinct (column_ints s)"
  shows "looks_ordinal s =
     (case maybe_large_ordinal (dropna_num (to_numeric s)) of
          Inl e \<Rightarrow> Inl e
        | Inr large \<Rightarrow>
            if large then
              Inr (True, ''All unique values in large range '' @ fmt_range (column_ints s)
                         @ '' relative to number of samples'')
            else Inr (False, ''All unique values''))"
proof -
  have dn: "\<not> list_all (\<lambda>x. x = None) (to_numeric s)"
    using assms(1) by (auto simp: column_ints_def all_none_dropna)
  have d: "list_all (\<lambda>c. c = 1) (np_counts (map astype_int64 (dropna_num (to_numeric s))))"
    using assms(2) unfolding column_ints_def np_counts_all_one .
  show ?thesis
    unfolding looks_ordinal_def Let_def column_ints_def
    by (simp only: dn d if_False if_True)
qed

lemma looks_ordinal_single_gap:
  assumes "\<not> distinct (column_ints s)" and "\<exists>g. set (gaps (column_ints s)) = {g}"
  shows "looks_ordinal s =
       (if Min (set (column_ints s)) = 0 \<and> Max (set (column_ints s)) = 1 then
          Inr (True, ''Binary {0, 1} indicator'')
        else Inr (True, ''Increasing integers in '' @ fmt_range (column_ints s)))"
proof -
  have ne: "column_ints s \<noteq> []" using assms(1) by auto
  have dn: "\<not> list_all (\<lambda>x. x = None) (to_numeric s)"
    using ne by (auto simp: column_ints_def all_none_dropna)
  have d: "\<not> list_all (\<lambda>c. c = 1) (np_counts (map astype_int64 (dropna_num (to_numeric s))))"
    using assms(1) unfolding column_ints_def np_counts_all_one .
  have g: "(length (np_unique (np_diff (sort (np_unique (map astype_int64 (dropna_num (to_numeric s))))))) = 1) = True"
    using assms(2) unfolding sort_np_unique np_unique_single_gap gaps_def column_ints_def by simp
  have s0: "str_int 0 = ''0''" "str_int 1 = ''1''" by code_simp+
  have step: "looks_ordinal s =
            (let vmin = fold min (tl (column_ints s)) (hd (column_ints s));
                 vmax = fold max (tl (column_ints s)) (hd (column_ints s))
             in if vmin = 0 \<and> vmax = 1 then
                  Inr (True, ''Binary {'' @ str_int vmin @ '', '' @ str_int vmax @ ''} indicator'')
                else Inr (True, ''Increasing integers in '' @ fmt_range (column_ints s)))"
    unfolding looks_ordinal_def Let_def column_ints_def
    by (simp only: dn d g if_False if_True)
  show ?thesis
    unfolding step Let_def fold_min_Min[OF ne] fold_max_Max[OF ne]
    by (simp add: s0)
qed

lemma looks_ordinal_heuristics:
  assumes "\<not> distinct (column_ints s)" and "\<not> (\<exists>g. set (gaps (column_ints s)) = {g})"
  shows "looks_ordinal s =
       (let imax = Max (set (column_ints s)) in
        if imax \<in> set [4, 6] then
          Inr (True, ''Largest int is a common 0-indexed Likert-type scale value: '' @ str_int imax)
        else if imax \<in> set [5, 7] then
          Inr (True, ''Largest int is a common Likert-type scale value: '' @ str_int imax)
        else if imax \<in> set [10, 100] then
          Inr (True, ''Largest int is a common scale max: '' @ str_int imax)
        else if imax \<in> set [9, 99] then
          Inr (True, ''Largest int is a common 0-indexed scale max: '' @ str_int imax)
        else Inr (False, ''''))"
proof -
  have ne: "column_ints s \<noteq> []" using assms(1) by auto
  have dn: "\<not> list_all (\<lambda>x. x = None) (to_numeric s)"
    using ne by (auto simp: column_ints_def all_none_dropna)
  have d: "\<not> list_all (\<lambda>c. c = 1) (np_counts (map astype_int64 (dropna_num (to_numeric s))))"
    using assms(1) unfolding column_ints_def np_counts_all_one .
  have g: "(length (np_unique (np_diff (sort (np_unique (map astype_int64 (dropna_num (to_numeric s))))))) = 1) = False"
    using assms(2) unfolding sort_np_unique np_unique_single_gap gaps_def column_ints_def by simp
  have m: "np_max (np_unique (map astype_int64 (dropna_num (to_numeric s)))) = Inr (Max (set (column_ints s)))"
    using np_max_np_unique[OF ne] by (simp add: column_ints_def)
  show ?thesis
    unfolding looks_ordinal_def Let_def
    by (simp only: dn d g m if_False if_True sum.case)
qed

lemma prob_unq_ordinals_above: "n > M \<Longrightarrow> prob_unq_ordinals n M = 0"
  by (simp add: prob_unq_ordinals_def)

lemma prob_unq_ordinals_empty_product: "n \<le> 2 \<Longrightarrow> n \<le> M \<Longrightarrow> prob_unq_ordinals n M = 1"
  by (simp add: prob_unq_ordinals_def)

lemma two_distinct_values:
  assumes d: "dropna_num (to_numeric s) = [of_int a, of_int b]"
      and ab: "a \<noteq> b" and m: "2 \<le> max a b"
      and ra: "INT64_MIN \<le> a" "a \<le> INT64_MAX" and rb: "INT64_MIN \<le> b" "b \<le> INT64_MAX"
  shows "maybe_large_ordinal (dropna_num (to_numeric s)) = Inr True"
    and "looks_ordinal s =
           Inr (True, ''All unique values in large range ['' @ str_int (min a b) @ '', ''
                      @ str_int (max a b) @ ''] relative to number of samples'')"
proof -
  have ci: "column_ints s = [a, b]"
    by (simp add: column_ints_def d astype_int64_of_int[OF ra] astype_int64_of_int[OF rb])
  have mx: "trunc (max (of_int b) (of_int a)) = max a b"
    by (simp add: max_def trunc_of_int)
  show ml: "maybe_large_ordinal (dropna_num (to_numeric s)) = Inr True"
    using m by (simp add: d maybe_large_ordinal_def mx prob_unq_ordinals_empty_product)
  have fr: "fmt_range [a, b] = ''['' @ str_int (min a b) @ '', '' @ str_int (max a b) @ '']''"
    by (simp add: fmt_range_def min.commute max.commute)
  show "looks_ordinal s =
           Inr (True, ''All unique values in large range ['' @ str_int (min a b) @ '', ''
                      @ str_int (max a b) @ ''] relative to number of samples'')"
    using looks_ordinal_distinct[of s] ab by (simp add: ci ml fr)
qed

lemma str_int_scale_max: "str_int 100 = ''100''" "str_int 99 = ''99''"
  by code_simp+

lemma index_reset_index: "index (reset_index t) = map int [0 ..< length t]"
  by (simp add: index_def reset_index_def)

lemma index_set_index: "length labels = length t \<Longrightarrow> index (set_index labels t) = labels"
  by (simp add: index_def set_index_def)

lemma validate_equal_lengths:
  assumes "length X_cont = length X" and "length X_cat = length X" and "length y = length X"
  shows "\<exists>X' C' K' y'. validate X X_cont X_cat y = Inr (X', C', K', y') \<and>
           index X' = map int [0 ..< length X] \<and> index C' = index X' \<and>
           index K' = index X' \<and> index y' = index X'"
  using assms by (simp add: validate_def Let_def index_reset_index index_set_index)

lemma mask_rows_map: "mask_rows (map P xs) (map f xs) = map f (filter P xs)"
  by (induction xs) (auto simp: mask_rows_def)

lemma mask_rows_counts:
  "mask_rows (map Q (np_counts xs)) (np_unique xs) = filter (\<lambda>u. Q (count_list xs u)) (np_unique xs)"
  using mask_rows_map[of "\<lambda>u. Q (count_list xs u)" "np_unique xs" id]
  by (simp add: np_counts_def comp_def)

lemma mask_rows_not_counts:
  "mask_rows (map Not (map Q (np_counts xs))) (np_unique xs)
     = filter (\<lambda>u. \<not> Q (count_list xs u)) (np_unique xs)"
  using mask_rows_map[of "\<lambda>u. \<not> Q (count_list xs u)" "np_unique xs" id]
  by (simp add: np_counts_def comp_def)

lemma length_np_counts: "length (np_counts xs) = card (set xs)"
  by (simp add: np_counts_def length_np_unique)

lemma inflation_of_Some:
  assumes "inflation_of c s = Some i"
  shows "col i = c"
    and "card (set (astype_str s)) > 2"
    and "\<exists>l\<in>set (astype_str s). count_list (astype_str s) l < N_CAT_LEVEL_MIN"
    and "n_keep i + n_deflate i = n_total i"
    and "n_total i = card (set (astype_str s))"
    and "set (to_keep i) = {l \<in> set (astype_str s). count_list (astype_str s) l \<ge> N_CAT_LEVEL_MIN}"
    and "set (to_deflate i) = {l \<in> set (astype_str s). count_list (astype_str s) l < N_CAT_LEVEL_MIN}"
    and "n_keep i = length (to_keep i)" and "n_deflate i = length (to_deflate i)"
    and "distinct (to_keep i)" and "distinct (to_deflate i)"
proof -
  let ?strs = "astype_str s"
  let ?K = "map (\<lambda>n. n \<ge> N_CAT_LEVEL_MIN) (np_counts ?strs)"
  from assms have big: "\<not> length (np_unique ?strs) \<le> 2"
    by (auto simp: inflation_of_def Let_def split: if_splits)
  from assms have notall: "\<not> list_all id ?K"
    by (auto simp: inflation_of_def Let_def split: if_splits)
  from assms big notall have i: "i = \<lparr> col = c,
                       to_deflate = mask_rows (map Not ?K) (np_unique ?strs),
                       to_keep = mask_rows ?K (np_unique ?strs),
                       n_deflate = length ?K - length (filter id ?K),
                       n_keep = length (filter id ?K), n_total = length (np_unique ?strs) \<rparr>"
    by (simp add: inflation_of_def Let_def)
  have dk: "to_keep i = filter (\<lambda>u. count_list ?strs u \<ge> N_CAT_LEVEL_MIN) (np_unique ?strs)"
    by (simp add: i mask_rows_counts)
  have dd: "to_deflate i = filter (\<lambda>u. \<not> count_list ?strs u \<ge> N_CAT_LEVEL_MIN) (np_unique ?strs)"
    using mask_rows_not_counts[of "\<lambda>n. n \<ge> N_CAT_LEVEL_MIN" "astype_str s"] by (simp add: i)
  have du: "distinct (np_unique ?strs)" by (simp add: np_unique_def)
  show "col i = c" by (simp add: i)
  show "card (set ?strs) > 2" using big by (simp add: length_np_unique)
  show "\<exists>l\<in>set ?strs. count_list ?strs l < N_CAT_LEVEL_MIN"
    using notall by (auto simp: list_all_iff np_counts_def set_np_unique not_le)
  have "length (filter id ?K) \<le> length ?K" by (rule length_filter_le)
  then show "n_keep i + n_deflate i = n_total i"
    by (simp add: i length_np_counts length_np_unique)
  show "n_total i = card (set ?strs)" by (simp add: i length_np_unique)
  show "set (to_keep i) = {l \<in> set ?strs. count_list ?strs l \<ge> N_CAT_LEVEL_MIN}"
    by (auto simp: dk set_np_unique)
  show "set (to_deflate i) = {l \<in> set ?strs. count_list ?strs l < N_CAT_LEVEL_MIN}"
    by (auto simp: dd set_np_unique)
  have lk: "length (filter id ?K) = length (filter (\<lambda>u. count_list ?strs u \<ge> N_CAT_LEVEL_MIN) (np_unique ?strs))"
    by (simp add: np_counts_def filter_map comp_def)
  show nk: "n_keep i = length (to_keep i)" using lk by (simp add: dk) (simp add: i)
  have "length (filter (\<lambda>u. count_list ?strs u \<ge> N_CAT_LEVEL_MIN) (np_unique ?strs))
        + length (filter (\<lambda>u. \<not> count_list ?strs u \<ge> N_CAT_LEVEL_MIN) (np_unique ?strs))
        = length (np_unique ?strs)"
    by (rule sum_length_filter_compl)
  then show "n_deflate i = length (to_deflate i)"
    using lk by (simp add: dd) (simp add: i np_counts_def)
  show "distinct (to_keep i)" using du by (simp add: dk)
  show "distinct (to_deflate i)" using du by (simp add: dd)
qed

lemma inflation_loop_infos:
  "inflation_loop df cats acc = Inr infos \<Longrightarrow>
     set infos = set acc \<union> {i. \<exists>c\<in>set cats. \<exists>s. map_of df c = Some s \<and> inflation_of c s = Some i}"
proof (induction cats arbitrary: acc)
  case Nil
  then show ?case by simp
next
  case (Cons c rest)
  from Cons.prems obtain s where s: "map_of df c = Some s"
    by (auto simp: getitem_def split: option.splits)
  show ?case
  proof (cases "inflation_of c s")
    case None
    with Cons.prems s have "inflation_loop df rest acc = Inr infos"
      by (simp add: getitem_def)
    from Cons.IH[OF this] None s show ?thesis by auto
  next
    case (Some i)
    with Cons.prems s have "inflation_loop df rest (acc @ [i]) = Inr infos"
      by (simp add: getitem_def)
    from Cons.IH[OF this] Some s show ?thesis by auto
  qed
qed

lemma inflation_loop_columns_present:
  "inflation_loop df cats acc = Inr infos \<Longrightarrow> \<forall>c\<in>set cats. \<exists>s. map_of df c = Some s"
proof (induction cats arbitrary: acc)
  case Nil
  then show ?case by simp
next
  case (Cons c rest)
  from Cons.prems obtain s where s: "map_of df c = Some s"
    by (auto simp: getitem_def split: option.splits)
  from Cons.prems s obtain acc' where "inflation_loop df rest acc' = Inr infos"
    by (cases "inflation_of c s") (auto simp: getitem_def)
  from Cons.IH[OF this] s show ?case by auto
qed

lemma length_mask_rows:
  "length xs = length ys \<Longrightarrow> length (mask_rows k xs) = length (mask_rows k ys)"
proof (induction k arbitrary: xs ys)
  case Nil
  then show ?case by (simp add: mask_rows_def)
next
  case (Cons b k)
  show ?case
  proof (cases xs)
    case Nil
    with Cons.prems show ?thesis by (simp add: mask_rows_def)
  next
    case (Cons x xs')
    with Cons.prems obtain y ys' where ys: "ys = y # ys'" by (cases ys) auto
    with Cons Cons.prems have "length xs' = length ys'" by simp
    from Cons.IH[OF this] show ?thesis
      using Cons ys by (simp add: mask_rows_def)
  qed
qed

lemma mask_rows_all_True:
  "length k = length xs \<Longrightarrow> \<forall>b\<in>set k. b \<Longrightarrow> mask_rows k xs = xs"
proof (induction k arbitrary: xs)
  case Nil
  then show ?case by (simp add: mask_rows_def)
next
  case (Cons b k)
  then obtain x xs' where xs: "xs = x # xs'" by (cases xs) auto
  with Cons.prems have "mask_rows k xs' = xs'" by (intro Cons.IH) auto
  with Cons.prems xs show ?case by (simp add: mask_rows_def)
qed

lemma well_formed_loc_rows: "well_formed df \<Longrightarrow> well_formed (loc_rows k df)"
  by (auto simp: well_formed_def loc_rows_def intro: length_mask_rows)

lemma well_formed_drop_columns: "well_formed df \<Longrightarrow> well_formed (drop_columns ds df)"
  by (auto simp: well_formed_def drop_columns_def)

lemma well_formed_dropna_columns: "well_formed df \<Longrightarrow> well_formed (dropna_columns df)"
  unfolding well_formed_def dropna_columns_def by auto

lemma map_of_loc_rows:
  "map_of (columns (loc_rows k df)) c = map_option (mask_rows k) (map_of (columns df) c)"
  by (induction "columns df" arbitrary: df) (auto simp: loc_rows_def map_of_map split: prod.splits)

lemma select_columns_present:
  "\<forall>c\<in>set cs. map_of cols c \<noteq> None \<Longrightarrow>
     select_columns cols cs = Inr (map (\<lambda>c. (c, the (map_of cols c))) cs)"
  by (induction cs) auto

lemma select_columns_absent:
  "\<exists>c\<in>set cs. map_of cols c = None \<Longrightarrow> \<exists>c. select_columns cols cs = Inl (KeyError c)"
proof (induction cs)
  case Nil
  then show ?case by simp
next
  case (Cons a cs)
  show ?case
  proof (cases "map_of cols a")
    case None
    then show ?thesis by simp
  next
    case (Some vs)
    with Cons.prems have "\<exists>c\<in>set cs. map_of cols c = None" by auto
    from Cons.IH[OF this] obtain c where "select_columns cols cs = Inl (KeyError c)" by auto
    with Some show ?thesis by simp
  qed
qed

lemma keep_step:
  "length keep = length vs \<Longrightarrow> None \<notin> set vs \<Longrightarrow>
     map (\<lambda>(k, v). k \<and> v \<noteq> None) (zip keep vs) = keep"
proof (induction keep vs rule: list_induct2)
  case Nil
  then show ?case by simp
next
  case (Cons k keep v vs)
  then show ?case by (cases v) auto
qed

lemma keep_all_fold:
  assumes "\<forall>(c, vs)\<in>set cols. None \<notin> set vs \<and> length vs = n" and "length keep = n"
  shows "fold (\<lambda>(c, vs) keep. map (\<lambda>(k, v). k \<and> v \<noteq> None) (zip keep vs)) cols keep = keep"
  using assms
proof (induction cols)
  case Nil
  then show ?case by simp
next
  case (Cons cv cols)
  obtain c vs where cv: "cv = (c, vs)" by (cases cv)
  with Cons.prems have vs: "None \<notin> set vs" "length keep = length vs" by auto
  from keep_step[OF vs(2) vs(1)] Cons cv show ?case by simp
qed

lemma dropna_index_no_nan:
  assumes "well_formed df" and "\<forall>(c, vs)\<in>set (columns df). None \<notin> set vs"
  shows "dropna_index df = df"
proof -
  let ?keep = "map (\<lambda>l. True) (row_labels df)"
  have k: "fold (\<lambda>(c, vs) keep. map (\<lambda>(k, v). k \<and> v \<noteq> None) (zip keep vs)) (columns df) ?keep = ?keep"
    by (rule keep_all_fold[where n = "length (row_labels df)"])
       (use assms in \<open>auto simp: well_formed_def\<close>)
  have l: "mask_rows ?keep (row_labels df) = row_labels df"
    by (rule mask_rows_all_True) auto
  have c: "map (\<lambda>(c, vs). (c, mask_rows ?keep vs)) (columns df) = columns df"
  proof (rule map_idI)
    fix cv assume "cv \<in> set (columns df)"
    then show "(case cv of (c, vs) \<Rightarrow> (c, mask_rows ?keep vs)) = cv"
      using assms(1) by (cases cv) (auto simp: well_formed_def intro!: mask_rows_all_True)
  qed
  show ?thesis unfolding dropna_index_def k by (simp add: loc_rows_def l c)
qed

lemma dropna_index_dropna_columns:
  "well_formed df \<Longrightarrow> dropna_index (dropna_columns df) = dropna_columns df"
proof -
  assume "well_formed df"
  then have w: "well_formed (dropna_columns df)" by (rule well_formed_dropna_columns)
  have n: "\<forall>(c, vs)\<in>set (columns (dropna_columns df)). None \<notin> set vs"
    by (auto simp: dropna_columns_def)
  show ?thesis by (rule dropna_index_no_nan[OF w n])
qed

lemma reindex_columns_same: "reindex_columns labels labels cols = Inr cols"
  by (induction cols) (auto simp: reindex_def)

lemma concat_columns_same_labels:
  "row_labels a = row_labels b \<Longrightarrow>
     concat_columns a b = Inr \<lparr> row_labels = row_labels a, columns = columns a @ columns b \<rparr>"
  by (simp add: concat_columns_def Let_def reindex_columns_same)

lemma level_counts_all:
  "list_all (\<lambda>c. c > n) (np_counts xs) \<longleftrightarrow> (\<forall>l\<in>set xs. count_list xs l > n)"
  by (simp add: np_counts_def list_all_iff set_np_unique)

lemma iloc_in_range:
  "\<forall>i\<in>set idx. i < length (cells s) \<Longrightarrow> iloc s idx = Inr (map (\<lambda>i. as_str (cells s ! i)) idx)"
  by (simp add: iloc_def)

lemma fraction_ge_one: "0 < n \<Longrightarrow> ((of_nat k / of_nat n :: rat) \<ge> 1) = (n \<le> k)"
  by (simp add: le_divide_eq)

lemma fraction_gt_third: "0 < n \<Longrightarrow> ((of_nat k / of_nat n :: rat) > 1 / 3) = (n < 3 * k)"
proof -
  assume n: "0 < n"
  have "((of_nat k / of_nat n :: rat) > 1 / 3) = ((of_nat n :: rat) < 3 * of_nat k)"
    using n by (simp add: less_divide_eq divide_less_eq mult.commute)
  also have "\<dots> = ((of_nat n :: rat) < of_nat (3 * k))" by simp
  also have "\<dots> = (n < 3 * k)" by (rule of_nat_less_iff)
  finally show ?thesis .
qed

lemma mean_bool_gt_half:
  "(mean_bool bs > 1 / 2) = (length bs < 2 * length (filter id bs))"
proof (cases "length bs = 0")
  case True
  then show ?thesis by (simp add: mean_bool_def)
next
  case False
  then have n: "0 < length bs" by simp
  have "((of_nat (length (filter id bs)) / of_nat (length bs) :: rat) > 1 / 2)
          = ((of_nat (length bs) :: rat) < 2 * of_nat (length (filter id bs)))"
    using n by (simp add: less_divide_eq divide_less_eq mult.commute)
  also have "\<dots> = ((of_nat (length bs) :: rat) < of_nat (2 * length (filter id bs)))" by simp
  also have "\<dots> = (length bs < 2 * length (filter id bs))" by (rule of_nat_less_iff)
  finally show ?thesis by (simp add: mean_bool_def)
qed


















lemma looks_ordinal_returns: "\<exists>r. looks_ordinal s = Inr r"
proof (cases "column_ints s = []")
  case True
  from looks_ordinal_empty[OF this] show ?thesis by blast
next
  case ne: False
  show ?thesis
  proof (cases "distinct (column_ints s)")
    case True
    from ne have "dropna_num (to_numeric s) \<noteq> []" by (auto simp: column_ints_def)
    then obtain b where "maybe_large_ordinal (dropna_num (to_numeric s)) = Inr b"
      by (cases "dropna_num (to_numeric s)") (auto simp: maybe_large_ordinal_def)
    with looks_ordinal_distinct[OF ne True] show ?thesis by (cases b) auto
  next
    case nd: False
    show ?thesis
    proof (cases "\<exists>g. set (gaps (column_ints s)) = {g}")
      case True
      from looks_ordinal_single_gap[OF nd True] show ?thesis by (auto split: if_splits)
    next
      case False
      from looks_ordinal_heuristics[OF nd False] show ?thesis by (auto simp: Let_def split: if_splits)
    qed
  qed
qed

section \<open>Claims\<close>

subsection \<open>The ordinal check\<close>

text \<open>
  C1. The claim: a column with repeated integer values is ordinal exactly when its sorted
  distinct values are consecutive (every gap 1), or else its maximum is one of 4, 6, 5, 7,
  10, 100, 9, 99. The source tests \<^verbatim>\<open>len(unq_diffs) == 1\<close>, that is, that all gaps are
  equal, where its comment says "diffs on sorted unique values are all 1". On the column
  \<^verbatim>\<open>[0, 0, 3]\<close> the distinct values 0 and 3 are not consecutive and the maximum 3 is
  no scale maximum, yet the column is classified ordinal.
\<close>

theorem looks_ordinal_equal_gaps_not_one:
  "looks_ordinal (int_column [0, 0, 3]) = Inr (True, ''Increasing integers in [0, 3]'')"
  by code_simp

text \<open>
  C7, as stated. A column that holds every value of 0..100 twice has size 202, values drawn
  from 0..100 with repetition and maximum 100; its reason is the consecutive-run one, not
  "common scale max".
\<close>

theorem looks_ordinal_full_scale_counterexample:
  "looks_ordinal (int_column ([0..100] @ [0..100]))
     = Inr (True, ''Increasing integers in [0, 100]'')"
  by code_simp

text \<open>
  C7, amended. For a column in which some integer value repeats and whose sorted distinct
  values do not all lie one common gap apart, maximum 100 gives Ordinal with the reason
  "Largest int is a common scale max: 100" and maximum 99 gives Ordinal with the reason
  "Largest int is a common 0-indexed scale max: 99".
\<close>

theorem looks_ordinal_common_scale_max:
  assumes "\<not> distinct (column_ints s)"
      and "\<not> (\<exists>g. set (gaps (column_ints s)) = {g})"
  shows "(Max (set (column_ints s)) = 100 \<longrightarrow>
            looks_ordinal s = Inr (True, ''Largest int is a common scale max: 100'')) \<and>
         (Max (set (column_ints s)) = 99 \<longrightarrow>
            looks_ordinal s = Inr (True, ''Largest int is a common 0-indexed scale max: 99''))"
  using looks_ordinal_heuristics[OF assms] by (simp add: Let_def str_int_scale_max)

theorem looks_ordinal_common_scale_max_witness:
  "\<not> distinct (column_ints (int_column (replicate 99 0 @ [1, 100]))) \<and>
   \<not> (\<exists>g. set (gaps (column_ints (int_column (replicate 99 0 @ [1, 100])))) = {g}) \<and>
   Max (set (column_ints (int_column (replicate 99 0 @ [1, 100])))) = 100 \<and>
   looks_ordinal (int_column (replicate 99 0 @ [1, 100]))
     = Inr (True, ''Largest int is a common scale max: 100'') \<and>
   \<not> distinct (column_ints (int_column (replicate 99 0 @ [1, 99]))) \<and>
   \<not> (\<exists>g. set (gaps (column_ints (int_column (replicate 99 0 @ [1, 99])))) = {g}) \<and>
   Max (set (column_ints (int_column (replicate 99 0 @ [1, 99])))) = 99 \<and>
   looks_ordinal (int_column (replicate 99 0 @ [1, 99]))
     = Inr (True, ''Largest int is a common 0-indexed scale max: 99'')"
proof -
  have d1: "\<not> distinct (column_ints (int_column (replicate 99 0 @ [1, 100])))"
    by code_simp
  have g1: "gaps (column_ints (int_column (replicate 99 0 @ [1, 100]))) = [1, 99]"
    by code_simp
  have m1: "Max (set (column_ints (int_column (replicate 99 0 @ [1, 100])))) = 100"
    by code_simp
  have d2: "\<not> distinct (column_ints (int_column (replicate 99 0 @ [1, 99])))"
    by code_simp
  have g2: "gaps (column_ints (int_column (replicate 99 0 @ [1, 99]))) = [1, 98]"
    by code_simp
  have m2: "Max (set (column_ints (int_column (replicate 99 0 @ [1, 99])))) = 99"
    by code_simp
  have n1: "\<not> (\<exists>g. set (gaps (column_ints (int_column (replicate 99 0 @ [1, 100])))) = {g})"
    unfolding g1 by auto
  have n2: "\<not> (\<exists>g. set (gaps (column_ints (int_column (replicate 99 0 @ [1, 99])))) = {g})"
    unfolding g2 by auto
  show ?thesis
    using looks_ordinal_common_scale_max[OF d1 n1] looks_ordinal_common_scale_max[OF d2 n2]
      d1 d2 n1 n2 m1 m2
    by blast
qed

text \<open>
  C10, as stated: the value is 1 whenever \<open>n_samples \<le> 2\<close>. The test
  \<open>n_samples > ordinal_max\<close> comes first, so two samples with maximum 1 give 0.
\<close>

theorem prob_unq_ordinals_two_samples_counterexample:
  "(2::int) \<le> 2 \<and> prob_unq_ordinals 2 1 = 0 \<and> prob_unq_ordinals 2 1 \<noteq> 1"
  by (simp add: prob_unq_ordinals_def)

text \<open>
  C10, amended. \<^verbatim>\<open>prob_unq_ordinals\<close> returns 0 whenever \<open>n_samples > ordinal_max\<close>, and
  returns 1 (the empty product) whenever \<open>n_samples \<le> 2\<close> and \<open>n_samples \<le> ordinal_max\<close>.
  So for every column with exactly two non-missing values, integers of the int64 range
  (from \<open>-2 ^ 63\<close> to \<open>2 ^ 63 - 1\<close>) that differ and whose maximum is at least 2,
  \<^verbatim>\<open>maybe_large_ordinal\<close> holds and the ordinal check classifies the column as a large-range
  ordinal, whatever the two values are. (\<^verbatim>\<open>astype(int)\<close> maps a value outside that range
  to the least int64, so two such values count as one repeated value.)
\<close>

theorem prob_unq_ordinals_edge_cases:
  "(n > M \<longrightarrow> prob_unq_ordinals n M = 0) \<and>
   (n \<le> 2 \<and> n \<le> M \<longrightarrow> prob_unq_ordinals n M = 1) \<and>
   (dropna_num (to_numeric s) = [of_int a, of_int b] \<and> a \<noteq> b \<and> 2 \<le> max a b \<and>
    INT64_MIN \<le> a \<and> a \<le> INT64_MAX \<and> INT64_MIN \<le> b \<and> b \<le> INT64_MAX \<longrightarrow>
      maybe_large_ordinal (dropna_num (to_numeric s)) = Inr True \<and>
      looks_ordinal s =
        Inr (True, ''All unique values in large range ['' @ str_int (min a b) @ '', ''
                   @ str_int (max a b) @ ''] relative to number of samples''))"
  using prob_unq_ordinals_above[of M n] prob_unq_ordinals_empty_product[of n M]
    two_distinct_values[of s a b]
  by blast

theorem prob_unq_ordinals_edge_cases_witness:
  "(3::int) > 2 \<and> prob_unq_ordinals 3 2 = 0 \<and>
   (2::int) \<le> 2 \<and> (2::int) \<le> 5 \<and> prob_unq_ordinals 2 5 = 1 \<and>
   dropna_num (to_numeric (int_column [7, 3])) = [of_int 7, of_int 3] \<and>
   (7::int) \<noteq> 3 \<and> (2::int) \<le> max 7 3 \<and>
   INT64_MIN \<le> 7 \<and> 7 \<le> INT64_MAX \<and> INT64_MIN \<le> 3 \<and> 3 \<le> INT64_MAX \<and>
   maybe_large_ordinal (dropna_num (to_numeric (int_column [7, 3]))) = Inr True \<and>
   looks_ordinal (int_column [7, 3])
     = Inr (True, ''All unique values in large range [3, 7] relative to number of samples'')"
proof -
  have d: "dropna_num (to_numeric (int_column [7, 3])) = [of_int 7, of_int 3]"
    by code_simp
  have s: "str_int (min 7 3) = ''3''" "str_int (max 7 3) = ''7''"
    by code_simp+
  have r: "INT64_MIN \<le> 7" "7 \<le> INT64_MAX" "INT64_MIN \<le> 3" "3 \<le> INT64_MAX"
    by (simp_all add: INT64_MIN_def INT64_MAX_def)
  show ?thesis
    using prob_unq_ordinals_edge_cases[where n = 3 and M = 2 and s = "int_column [7, 3]"
        and a = 7 and b = 3]
      prob_unq_ordinals_edge_cases[where n = 2 and M = 5 and s = "int_column [7, 3]"
        and a = 7 and b = 3] d s r
    by simp
qed

subsection \<open>Target sanitation\<close>

text \<open>
  C3. The claim: classes with fewer than 20 rows are dropped and classes with 20 or more rows
  are kept. The source tests \<^verbatim>\<open>cnts <= 20\<close>, while its own warning speaks of labels
  "with less than 20 members". With 20 rows of class 0 and 21 rows of class 1, class 0
  is dropped: only the 21 rows of class 1 remain, encoded as 0.
\<close>

theorem encode_target_drops_class_of_twenty:
  "encode_target [0 ..< 41] (replicate 20 (Some 0) @ replicate 21 (Some 1))
     = ([20 ..< 41], replicate 21 0)"
  by code_simp

subsection \<open>Prepared data\<close>

text \<open>
  C8. The claim: the dimension-mismatch message names the offending table and its row
  count. For the target the source formats \<^verbatim>\<open>len(X_cat)\<close> where the two sibling branches
  format the length of the table they name. With three rows in \<open>X\<close>, \<open>X_cont\<close>, \<open>X_cat\<close> and
  two in \<open>y\<close> the message reports 3 samples for the target.
\<close>

theorem validate_target_message_reports_X_cat:
  "validate [(0, a0), (1, a1), (2, a2)] [(0, b0), (1, b1), (2, b2)]
            [(0, c0), (1, c1), (2, c2)] [(0, d0), (1, d1)]
     = Inl (ValueError
         ''Target number of samples (3) does not match number of samples in processed data (3)'')"
  by (simp add: validate_def str_nat.simps digit_char_def)

subsection \<open>The inflation detector\<close>

text \<open>
  C6. Let \<^verbatim>\<open>detect_big_cats\<close> return the list \<open>infos\<close>. A categorical column has an
  \<open>InflationInfo\<close> in it exactly when it has more than 2 distinct stringified levels and some
  level has support below \<open>N_CAT_LEVEL_MIN\<close> (20): columns with at most 2 levels, and columns
  whose levels all have support at least 20, have none. Every emitted \<open>InflationInfo\<close>
  satisfies \<open>n_keep + n_deflate = n_total\<close>, every level of \<open>to_keep\<close> has support at least
  the threshold, every level of \<open>to_deflate\<close> has support strictly below it, and the two
  lists partition the distinct levels of the column.
\<close>

theorem detect_big_cats_inflation_invariant:
  assumes "detect_big_cats df unique_counts all_cats = Inr (bigs, infos, info)"
  shows "(\<forall>c\<in>set all_cats. \<exists>s. map_of df c = Some s \<and>
            ((\<exists>i\<in>set infos. col i = c) \<longleftrightarrow>
               card (set (astype_str s)) > 2 \<and>
               (\<exists>l\<in>set (astype_str s). count_list (astype_str s) l < N_CAT_LEVEL_MIN))) \<and>
         (\<forall>i\<in>set infos. \<exists>s. col i \<in> set all_cats \<and> map_of df (col i) = Some s \<and>
            n_keep i + n_deflate i = n_total i \<and>
            n_total i = card (set (astype_str s)) \<and>
            (\<forall>l\<in>set (to_keep i). count_list (astype_str s) l \<ge> N_CAT_LEVEL_MIN) \<and>
            (\<forall>l\<in>set (to_deflate i). count_list (astype_str s) l < N_CAT_LEVEL_MIN) \<and>
            set (to_keep i) \<union> set (to_deflate i) = set (astype_str s) \<and>
            set (to_keep i) \<inter> set (to_deflate i) = {})"
proof -
  from assms have loop: "inflation_loop df all_cats [] = Inr infos"
    by (auto simp: detect_big_cats_def Let_def split: sum.splits)
  have infos: "set infos = {i. \<exists>c\<in>set all_cats. \<exists>s. map_of df c = Some s \<and> inflation_of c s = Some i}"
    using inflation_loop_infos[OF loop] by simp
  have present: "\<forall>c\<in>set all_cats. \<exists>s. map_of df c = Some s"
    using inflation_loop_columns_present[OF loop] .
  have emitted: "\<exists>s. col i \<in> set all_cats \<and> map_of df (col i) = Some s \<and>
            card (set (astype_str s)) > 2 \<and>
            (\<exists>l\<in>set (astype_str s). count_list (astype_str s) l < N_CAT_LEVEL_MIN) \<and>
            n_keep i + n_deflate i = n_total i \<and>
            n_total i = card (set (astype_str s)) \<and>
            (\<forall>l\<in>set (to_keep i). count_list (astype_str s) l \<ge> N_CAT_LEVEL_MIN) \<and>
            (\<forall>l\<in>set (to_deflate i). count_list (astype_str s) l < N_CAT_LEVEL_MIN) \<and>
            set (to_keep i) \<union> set (to_deflate i) = set (astype_str s) \<and>
            set (to_keep i) \<inter> set (to_deflate i) = {}" if "i \<in> set infos" for i
  proof -
    from that infos obtain c s where c: "c \<in> set all_cats" "map_of df c = Some s"
      and i: "inflation_of c s = Some i" by auto
    note f = inflation_of_Some[OF i]
    have "set (to_keep i) \<union> set (to_deflate i) = set (astype_str s)"
      unfolding f(6) f(7) by auto
    moreover have "set (to_keep i) \<inter> set (to_deflate i) = {}"
      unfolding f(6) f(7) by auto
    ultimately show ?thesis using c f by auto
  qed
  have rare: "\<exists>i\<in>set infos. col i = c"
    if c: "c \<in> set all_cats" "map_of df c = Some s" "card (set (astype_str s)) > 2"
      "\<exists>l\<in>set (astype_str s). count_list (astype_str s) l < N_CAT_LEVEL_MIN" for c s
  proof -
    have "inflation_of c s \<noteq> None"
      using c(3,4)
      by (auto simp: inflation_of_def Let_def length_np_unique list_all_iff np_counts_def
          set_np_unique not_le)
    then obtain i where i: "inflation_of c s = Some i" by auto
    with c infos have "i \<in> set infos" by auto
    with inflation_of_Some(1)[OF i] show ?thesis by auto
  qed
  show ?thesis
  proof (intro conjI ballI)
    fix c assume c: "c \<in> set all_cats"
    with present obtain s where s: "map_of df c = Some s" by auto
    have "(\<exists>i\<in>set infos. col i = c) \<longleftrightarrow>
               card (set (astype_str s)) > 2 \<and>
               (\<exists>l\<in>set (astype_str s). count_list (astype_str s) l < N_CAT_LEVEL_MIN)"
    proof
      assume "\<exists>i\<in>set infos. col i = c"
      then obtain i where "i \<in> set infos" "col i = c" by auto
      with emitted[of i] s show "card (set (astype_str s)) > 2 \<and>
               (\<exists>l\<in>set (astype_str s). count_list (astype_str s) l < N_CAT_LEVEL_MIN)"
        by auto
    next
      assume "card (set (astype_str s)) > 2 \<and>
               (\<exists>l\<in>set (astype_str s). count_list (astype_str s) l < N_CAT_LEVEL_MIN)"
      with rare[OF c s] show "\<exists>i\<in>set infos. col i = c" by auto
    qed
    with s show "\<exists>s. map_of df c = Some s \<and>
            ((\<exists>i\<in>set infos. col i = c) \<longleftrightarrow>
               card (set (astype_str s)) > 2 \<and>
               (\<exists>l\<in>set (astype_str s). count_list (astype_str s) l < N_CAT_LEVEL_MIN))"
      by auto
  next
    fix i assume "i \<in> set infos"
    from emitted[OF this] show "\<exists>s. col i \<in> set all_cats \<and> map_of df (col i) = Some s \<and>
            n_keep i + n_deflate i = n_total i \<and>
            n_total i = card (set (astype_str s)) \<and>
            (\<forall>l\<in>set (to_keep i). count_list (astype_str s) l \<ge> N_CAT_LEVEL_MIN) \<and>
            (\<forall>l\<in>set (to_deflate i). count_list (astype_str s) l < N_CAT_LEVEL_MIN) \<and>
            set (to_keep i) \<union> set (to_deflate i) = set (astype_str s) \<and>
            set (to_keep i) \<inter> set (to_deflate i) = {}"
      by auto
  qed
qed

theorem detect_big_cats_inflation_invariant_witness:
  "detect_big_cats
      [(''city'', str_column (replicate 20 ''a'' @ replicate 20 ''b'' @ [''c''])),
       (''flag'', str_column [''y'', ''n'', ''y''])]
      [(''city'', 3), (''flag'', 2)] [''flag'', ''city'']
     = Inr ([], [\<lparr> col = ''city'', to_deflate = [''c''], to_keep = [''a'', ''b''],
                    n_deflate = 1, n_keep = 2, n_total = 3 \<rparr>],
            \<lparr> kind = BigCat, descs = [] \<rparr>) \<and>
   (1::nat) + 2 = 3 \<and>
   count_list (replicate 20 ''a'' @ replicate 20 ''b'' @ [''c'']) ''c'' < N_CAT_LEVEL_MIN"
proof -
  let ?df = "[(''city'', str_column (replicate 20 ''a'' @ replicate 20 ''b'' @ [''c''])),
       (''flag'', str_column [''y'', ''n'', ''y''])]"
  let ?i = "\<lparr> col = ''city'', to_deflate = [''c''], to_keep = [''a'', ''b''],
                    n_deflate = 1, n_keep = 2, n_total = 3 \<rparr>"
  have run: "detect_big_cats ?df [(''city'', 3), (''flag'', 2)] [''flag'', ''city'']
     = Inr ([], [?i], \<lparr> kind = BigCat, descs = [] \<rparr>)"
    by code_simp
  have strs: "astype_str (str_column (replicate 20 ''a'' @ replicate 20 ''b'' @ [''c'']))
     = replicate 20 ''a'' @ replicate 20 ''b'' @ [''c'']"
    by code_simp
  from detect_big_cats_inflation_invariant[OF run]
  have "\<exists>s. col ?i \<in> set [''flag'', ''city''] \<and> map_of ?df (col ?i) = Some s \<and>
            n_keep ?i + n_deflate ?i = n_total ?i \<and>
            n_total ?i = card (set (astype_str s)) \<and>
            (\<forall>l\<in>set (to_keep ?i). count_list (astype_str s) l \<ge> N_CAT_LEVEL_MIN) \<and>
            (\<forall>l\<in>set (to_deflate ?i). count_list (astype_str s) l < N_CAT_LEVEL_MIN) \<and>
            set (to_keep ?i) \<union> set (to_deflate ?i) = set (astype_str s) \<and>
            set (to_keep ?i) \<inter> set (to_deflate ?i) = {}"
    by simp
  then have "count_list (astype_str (str_column (replicate 20 ''a'' @ replicate 20 ''b'' @ [''c''])))
               ''c'' < N_CAT_LEVEL_MIN"
    by simp
  with run strs show ?thesis by simp
qed

subsection \<open>Continuous NaN handling\<close>

text \<open>
  C9. With the strategy \<open>Drop\<close>, on a data frame that holds the target and the categorical
  columns: if dropping the NaN columns and then the NaN rows of the continuous predictors
  leaves no row or no column, \<^verbatim>\<open>handle_continuous_nans\<close> raises \<^verbatim>\<open>RuntimeError\<close> with the
  message that lists the values of the other strategies; otherwise it returns the table of
  the categorical columns, the NaN-free continuous columns and the target, on the rows that
  have a target.
\<close>

theorem handle_continuous_nans_drop:
  assumes wf: "well_formed df"
      and t: "map_of (columns df) target = Some t"
      and cats: "\<forall>c\<in>set cat_cols. map_of (columns df) c \<noteq> None"
  shows "handle_continuous_nans members impute df target cat_cols Drop =
           (let rows = loc_rows (map (\<lambda>v. v \<noteq> None) t) df;
                X_clean = dropna_index (dropna_columns (drop_columns (cat_cols @ [target]) rows))
            in if fst (shape X_clean) = 0 \<or> snd (shape X_clean) = 0
               then Inl (RuntimeError
                      (''Dropping NaNs resulted in either no remaining samples or features. ''
                       @ ''Consider changing the option `--nan` to another valid option. Other ''
                       @ ''valid options: ''
                       @ py_repr_list (map snd (filter (\<lambda>(na, v). na \<noteq> Drop) members))))
               else Inr \<lparr> row_labels = row_labels rows,
                          columns = map (\<lambda>c. (c, the (map_of (columns rows) c))) cat_cols
                                    @ columns X_clean
                                    @ [(target, the (map_of (columns rows) target))] \<rparr>)"
proof -
  define rows where "rows = loc_rows (map (\<lambda>v. v \<noteq> None) t) df"
  define X where "X = drop_columns (cat_cols @ [target]) rows"
  define X_clean where "X_clean = dropna_index (dropna_columns X)"
  have wr: "well_formed rows" unfolding rows_def by (rule well_formed_loc_rows[OF wf])
  have wX: "well_formed X" unfolding X_def by (rule well_formed_drop_columns[OF wr])
  have xc: "X_clean = dropna_columns X"
    unfolding X_clean_def by (rule dropna_index_dropna_columns[OF wX])
  have labels: "row_labels X_clean = row_labels rows"
    by (simp add: xc dropna_columns_def X_def drop_columns_def)
  have tr: "map_of (columns rows) target = Some (mask_rows (map (\<lambda>v. v \<noteq> None) t) t)"
    by (simp add: rows_def map_of_loc_rows t)
  have "\<forall>c\<in>set cat_cols. map_of (columns rows) c \<noteq> None"
    using cats by (simp add: rows_def map_of_loc_rows)
  then have sel: "select_columns (columns rows) cat_cols
                    = Inr (map (\<lambda>c. (c, the (map_of (columns rows) c))) cat_cols)"
    by (rule select_columns_present)
  have notin: "target \<notin> fst ` set (columns X_clean)"
    by (auto simp: xc dropna_columns_def X_def drop_columns_def)
  have set: "setitem X_clean target (row_labels rows, mask_rows (map (\<lambda>v. v \<noteq> None) t) t)
               = Inr (X_clean \<lparr> columns := columns X_clean
                                   @ [(target, mask_rows (map (\<lambda>v. v \<noteq> None) t) t)] \<rparr>)"
    using notin by (simp add: setitem_def reindex_def labels dict_set_def)
  have cc: "concat_columns \<lparr> row_labels = row_labels rows,
                             columns = map (\<lambda>c. (c, the (map_of (columns rows) c))) cat_cols \<rparr>
              (X_clean \<lparr> columns := columns X_clean
                          @ [(target, mask_rows (map (\<lambda>v. v \<noteq> None) t) t)] \<rparr>)
            = Inr \<lparr> row_labels = row_labels rows,
                    columns = map (\<lambda>c. (c, the (map_of (columns rows) c))) cat_cols
                              @ columns X_clean
                              @ [(target, mask_rows (map (\<lambda>v. v \<noteq> None) t) t)] \<rparr>"
    by (subst concat_columns_same_labels) (simp_all add: labels)
  show ?thesis
    unfolding handle_continuous_nans_def Let_def exhaustion_message_def other_strategies_def
    by (simp only: t option.case rows_def[symmetric] X_def[symmetric] X_clean_def[symmetric]
          sel sum.case if_True simp_thms set cc tr option.sel split: if_split)
       (simp add: set cc)
qed

theorem handle_continuous_nans_drop_witness:
  "well_formed \<lparr> row_labels = [0, 1, 2],
                  columns = [(''a'', [Some (1::nat), None, Some 3]), (''b'', [Some 1, Some 2, Some 3]),
                             (''c'', [Some 0, Some 0, Some 1]), (''t'', [Some 1, Some 0, None])] \<rparr> \<and>
   handle_continuous_nans
      [(Drop, ''drop''), (Mean, ''mean''), (Median, ''median''), (Impute, ''impute'')]
      (\<lambda>na X. Inr X)
      \<lparr> row_labels = [0, 1, 2],
        columns = [(''a'', [Some (1::nat), None, Some 3]), (''b'', [Some 1, Some 2, Some 3]),
                   (''c'', [Some 0, Some 0, Some 1]), (''t'', [Some 1, Some 0, None])] \<rparr>
      ''t'' [''c''] Drop
     = Inr \<lparr> row_labels = [0, 1],
             columns = [(''c'', [Some 0, Some 0]), (''b'', [Some 1, Some 2]),
                        (''t'', [Some 1, Some 0])] \<rparr> \<and>
   handle_continuous_nans
      [(Drop, ''drop''), (Mean, ''mean''), (Median, ''median''), (Impute, ''impute'')]
      (\<lambda>na X. Inr X)
      \<lparr> row_labels = [0, 1, 2],
        columns = [(''a'', [Some (1::nat), None, Some 3]), (''b'', [Some 1, Some 2, Some 3]),
                   (''c'', [Some 0, Some 0, Some 1]), (''t'', [Some 1, Some 0, None])] \<rparr>
      ''t'' [''c'', ''b''] Drop
     = Inl (RuntimeError
         (''Dropping NaNs resulted in either no remaining samples or features. ''
          @ ''Consider changing the option `--nan` to another valid option. Other ''
          @ ''valid options: ['' @ [CHR 0x27] @ ''mean'' @ [CHR 0x27] @ '', '' @ [CHR 0x27]
          @ ''median'' @ [CHR 0x27] @ '', '' @ [CHR 0x27] @ ''impute'' @ [CHR 0x27] @ '']''))"
proof -
  let ?df = "\<lparr> row_labels = [0, 1, 2],
        columns = [(''a'', [Some (1::nat), None, Some 3]), (''b'', [Some 1, Some 2, Some 3]),
                   (''c'', [Some 0, Some 0, Some 1]), (''t'', [Some 1, Some 0, None])] \<rparr>"
  let ?M = "[(Drop, ''drop''), (Mean, ''mean''), (Median, ''median''), (Impute, ''impute'')]"
  have wf: "well_formed ?df" by code_simp
  have t: "map_of (columns ?df) ''t'' = Some [Some 1, Some 0, None]" by simp
  have c1: "\<forall>c\<in>set [''c'']. map_of (columns ?df) c \<noteq> None" by simp
  have c2: "\<forall>c\<in>set [''c'', ''b'']. map_of (columns ?df) c \<noteq> None" by simp
  have r1: "(let rows = loc_rows (map (\<lambda>v. v \<noteq> None) [Some (1::nat), Some 0, None]) ?df;
                X_clean = dropna_index (dropna_columns (drop_columns ([''c''] @ [''t'']) rows))
            in if fst (shape X_clean) = 0 \<or> snd (shape X_clean) = 0
               then Inl (RuntimeError
                      (''Dropping NaNs resulted in either no remaining samples or features. ''
                       @ ''Consider changing the option `--nan` to another valid option. Other ''
                       @ ''valid options: ''
                       @ py_repr_list (map snd (filter (\<lambda>(na, v). na \<noteq> Drop) ?M))))
               else Inr \<lparr> row_labels = row_labels rows,
                          columns = map (\<lambda>c. (c, the (map_of (columns rows) c))) [''c'']
                                    @ columns X_clean
                                    @ [(''t'', the (map_of (columns rows) ''t''))] \<rparr>)
     = Inr \<lparr> row_labels = [0, 1],
             columns = [(''c'', [Some 0, Some 0]), (''b'', [Some 1, Some 2]),
                        (''t'', [Some 1, Some 0])] \<rparr>"
    by code_simp
  have r2: "(let rows = loc_rows (map (\<lambda>v. v \<noteq> None) [Some (1::nat), Some 0, None]) ?df;
                X_clean = dropna_index (dropna_columns (drop_columns ([''c'', ''b''] @ [''t'']) rows))
            in if fst (shape X_clean) = 0 \<or> snd (shape X_clean) = 0
               then Inl (RuntimeError
                      (''Dropping NaNs resulted in either no remaining samples or features. ''
                       @ ''Consider changing the option `--nan` to another valid option. Other ''
                       @ ''valid options: ''
                       @ py_repr_list (map snd (filter (\<lambda>(na, v). na \<noteq> Drop) ?M))))
               else Inr \<lparr> row_labels = row_labels rows,
                          columns = map (\<lambda>c. (c, the (map_of (columns rows) c))) [''c'', ''b'']
                                    @ columns X_clean
                                    @ [(''t'', the (map_of (columns rows) ''t''))] \<rparr>)
     = Inl (RuntimeError
         (''Dropping NaNs resulted in either no remaining samples or features. ''
          @ ''Consider changing the option `--nan` to another valid option. Other ''
          @ ''valid options: ['' @ [CHR 0x27] @ ''mean'' @ [CHR 0x27] @ '', '' @ [CHR 0x27]
          @ ''median'' @ [CHR 0x27] @ '', '' @ [CHR 0x27] @ ''impute'' @ [CHR 0x27] @ '']''))"
    by code_simp
  show ?thesis
    using wf handle_continuous_nans_drop[OF wf t c1, of ?M "\<lambda>na X. Inr X"]
      handle_continuous_nans_drop[OF wf t c2, of ?M "\<lambda>na X. Inr X"]
    unfolding r1 r2 by blast
qed

subsection \<open>The identifier check\<close>

text \<open>
  C2, as stated: every column whose stringified values are all unique is identifier-like.
  \<^verbatim>\<open>looks_id_like\<close> first returns false for a float-like column: the column of the texts
  0.5, 0.25, 0.125 has three distinct texts and is not identifier-like.
\<close>

theorem looks_id_like_float_text_counterexample:
  "distinct (astype_str (float_text_column [(''0.5'', 1 / 2), (''0.25'', 1 / 4), (''0.125'', 1 / 8)])) \<and>
   looks_id_like (float_text_column [(''0.5'', 1 / 2), (''0.25'', 1 / 4), (''0.125'', 1 / 8)])
     = Inr (False, ''Appears float-like'')"
  by code_simp

text \<open>
  C2, amended. For every column that is not float-like and not of categorical dtype, and
  whose stringified values (missing markers included) are all unique, the identifier check
  returns true.
\<close>

theorem looks_id_like_all_unique:
  assumes "looks_floatlike s = Inr (False, d)"
      and "\<forall>n c. dtype s \<noteq> CategoricalDtype n c"
      and "distinct (astype_str s)"
  shows "looks_id_like s = Inr (True, ''All values including possible NaNs are unique'')"
proof -
  have u: "list_all (\<lambda>c. c = 1) (np_counts (astype_str s))"
    using assms(3) unfolding np_counts_all_one .
  show ?thesis
  proof (cases "dtype s")
    case (CategoricalDtype n c)
    with assms(2) show ?thesis by blast
  qed (simp_all only: looks_id_like_def Let_def assms(1) u sum.case fst_conv if_False if_True
         dtype.case)
qed

theorem looks_id_like_all_unique_witness:
  "looks_floatlike (str_column [''a'', ''b'', ''c'']) = Inr (False, ''No values parse as valid floats'') \<and>
   (\<forall>n c. dtype (str_column [''a'', ''b'', ''c'']) \<noteq> CategoricalDtype n c) \<and>
   distinct (astype_str (str_column [''a'', ''b'', ''c''])) \<and>
   looks_id_like (str_column [''a'', ''b'', ''c''])
     = Inr (True, ''All values including possible NaNs are unique'')"
proof -
  have f: "looks_floatlike (str_column [''a'', ''b'', ''c''])
             = Inr (False, ''No values parse as valid floats'')"
    by code_simp
  have c: "\<forall>n c. dtype (str_column [''a'', ''b'', ''c'']) \<noteq> CategoricalDtype n c"
    by (simp add: str_column_def)
  have d: "distinct (astype_str (str_column [''a'', ''b'', ''c'']))"
    by code_simp
  from looks_id_like_all_unique[OF f c d] f c d show ?thesis by blast
qed

subsection \<open>The time check\<close>

text \<open>
  C4, at a column whose index is not \<open>0, \<dots>, N - 1\<close>. The column holds the texts
  \<^verbatim>\<open>2020-01-01\<close>, \<^verbatim>\<open>2020-01-02\<close> and \<^verbatim>\<open>x\<close> under the index labels 10, 11 and 12; the first
  two parse as dates. It converts neither to int nor to float, no level has support above
  \<open>N_CAT_LEVEL_MIN\<close>, the subsample is the whole column and two thirds of it parse, which is
  more than a third and more than one half. The first evaluation selects the subsample by
  position (\<^verbatim>\<open>series.iloc[idx]\<close>); the second selects the same numbers as index labels
  (\<^verbatim>\<open>series.loc[idx]\<close>), none of which is a label here, and \<^verbatim>\<open>looks_timelike\<close> raises
  \<^verbatim>\<open>KeyError\<close> where the claim has it return true.
\<close>

theorem looks_timelike_loc_raises_on_shifted_index:
  "\<not> converts_to_int (with_index [10, 11, 12] (str_column [''2020-01-01'', ''2020-01-02'', ''x''])) \<and>
   \<not> converts_to_float (with_index [10, 11, 12] (str_column [''2020-01-01'', ''2020-01-02'', ''x''])) \<and>
   map label (cells (with_index [10, 11, 12] (str_column [''2020-01-01'', ''2020-01-02'', ''x'']))) =
     [10, 11, 12] \<and>
   np_counts (astype_str (with_index [10, 11, 12] (str_column [''2020-01-01'', ''2020-01-02'', ''x''])))
     = [1, 1, 1] \<and>
   map (is_timelike \<lparr> int_parses = (\<lambda>t. False), float_parses = (\<lambda>t. False),
                       date_parses = (\<lambda>t. t \<noteq> ''x''), fmt_percent = (\<lambda>p. '' 66.67'') \<rparr>)
       (astype_str (with_index [10, 11, 12] (str_column [''2020-01-01'', ''2020-01-02'', ''x''])))
     = [True, True, False] \<and>
   looks_timelike
      \<lparr> int_parses = (\<lambda>t. False), float_parses = (\<lambda>t. False),
        date_parses = (\<lambda>t. t \<noteq> ''x''), fmt_percent = (\<lambda>p. '' 66.67'') \<rparr>
      [2, 0, 1] (with_index [10, 11, 12] (str_column [''2020-01-01'', ''2020-01-02'', ''x'']))
     = Inl (KeyError ''not in index'')"
  by code_simp

text \<open>
  Where the second evaluation returns, the decision of \<^verbatim>\<open>looks_timelike\<close> is the one
  described: it returns false when the column converts to int or to float;
  otherwise, when every distinct stringified level has support above \<open>N_CAT_LEVEL_MIN\<close> (20),
  it returns false whatever parses; otherwise, \<open>perm\<close> being a permutation of the \<open>N\<close> row
  positions, it date-parses the subsample of the first \<open>min(N, max(ceil(N/2), 500))\<close>
  positions of \<open>perm\<close> and returns true exactly when all of the subsample parses, or when
  more than a third of it parses and the second evaluation, over the rows labelled by the
  same positions, returns with a parse rate above one half.
\<close>

lemma looks_timelike_decision:
  "(converts_to_int s \<or> converts_to_float s \<longrightarrow>
      (\<exists>d. looks_timelike L perm s = Inr (False, d))) \<and>
   (\<not> converts_to_int s \<and> \<not> converts_to_float s \<and>
    (\<forall>l\<in>set (astype_str s). count_list (astype_str s) l > N_CAT_LEVEL_MIN) \<longrightarrow>
      looks_timelike L perm s = Inr (False, ''Looks like well-sampled categorical'')) \<and>
   (\<not> converts_to_int s \<and> \<not> converts_to_float s \<and>
    \<not> (\<forall>l\<in>set (astype_str s). count_list (astype_str s) l > N_CAT_LEVEL_MIN) \<and>
    distinct perm \<and> set perm = {0 ..< length (cells s)} \<longrightarrow>
      (let N = length (cells s);
           n_subsamp = nat (min (int N) (max \<lceil>rat_of_nat N / 2\<rceil> 500));
           idx = take n_subsamp perm;
           parsed = length (filter (\<lambda>i. is_timelike L (as_str (cells s ! i))) idx)
       in length idx = n_subsamp \<and>
          ((\<exists>d. looks_timelike L perm s = Inr (True, d)) \<longleftrightarrow>
             parsed = n_subsamp \<or>
             (n_subsamp < 3 * parsed \<and>
              (\<exists>rows. loc s idx = Inr rows \<and>
                 length rows < 2 * length (filter (is_timelike L) rows))))))"
proof (intro conjI impI)
  assume "converts_to_int s \<or> converts_to_float s"
  then show "\<exists>d. looks_timelike L perm s = Inr (False, d)"
    by (auto simp: looks_timelike_def)
next
  assume "\<not> converts_to_int s \<and> \<not> converts_to_float s \<and>
    (\<forall>l\<in>set (astype_str s). count_list (astype_str s) l > N_CAT_LEVEL_MIN)"
  then show "looks_timelike L perm s = Inr (False, ''Looks like well-sampled categorical'')"
    by (simp add: looks_timelike_def level_counts_all)
next
  assume a: "\<not> converts_to_int s \<and> \<not> converts_to_float s \<and>
    \<not> (\<forall>l\<in>set (astype_str s). count_list (astype_str s) l > N_CAT_LEVEL_MIN) \<and>
    distinct perm \<and> set perm = {0 ..< length (cells s)}"
  define N where "N = length (cells s)"
  define n_subsamp where "n_subsamp = nat (min (int N) (max \<lceil>rat_of_nat N / 2\<rceil> 500))"
  define idx where "idx = take n_subsamp perm"
  define parsed where "parsed = length (filter (\<lambda>i. is_timelike L (as_str (cells s ! i))) idx)"
  from a have "astype_str s \<noteq> []" by auto
  then have Npos: "0 < N" by (simp add: N_def astype_str_def)
  have same: "nat (min (max \<lceil>rat_of_nat N / 2\<rceil> 500) (int N)) = n_subsamp"
    by (simp add: n_subsamp_def min.commute)
  have npos: "0 < n_subsamp" using Npos by (simp add: n_subsamp_def)
  have nle: "n_subsamp \<le> N" by (simp add: n_subsamp_def)
  from a have "length perm = card {0 ..< N}"
    using distinct_card[of perm] by (simp add: N_def)
  then have lperm: "length perm = N" by simp
  have lidx: "length idx = n_subsamp" using nle lperm by (simp add: idx_def)
  have "set idx \<subseteq> set perm" unfolding idx_def by (rule set_take_subset)
  with a have inr: "\<forall>i\<in>set idx. i < length (cells s)" by auto
  have il: "iloc s idx = Inr (map (\<lambda>i. as_str (cells s ! i)) idx)"
    by (rule iloc_in_range[OF inr])
  have cnt: "length (filter (is_timelike L) (map (\<lambda>i. as_str (cells s ! i)) idx)) = parsed"
    by (simp add: parsed_def filter_map comp_def)
  have ple: "parsed \<le> n_subsamp"
    unfolding parsed_def lidx[symmetric] by (rule length_filter_le)
  have lc: "\<not> list_all (\<lambda>c. c > N_CAT_LEVEL_MIN) (np_counts (astype_str s))"
    using a by (simp add: level_counts_all)
  have same0: "nat (min (max \<lceil>1 / 2 * rat_of_nat (length (cells s))\<rceil> 500) (int (length (cells s))))
                = n_subsamp"
    by (simp add: n_subsamp_def N_def min.commute)
  have ci: "converts_to_int s = False" "converts_to_float s = False" using a by auto
  have lc': "list_all (\<lambda>c. c > N_CAT_LEVEL_MIN) (np_counts (astype_str s)) = False"
    using lc by simp
  have fm: "length (filter id (map (is_timelike L) rows)) = length (filter (is_timelike L) rows)"
    for rows by (simp add: filter_map comp_def)
  have unfold: "looks_timelike L perm s =
      (if n_subsamp \<le> parsed then Inr (True, ''100% of data parses as datetime'')
       else if n_subsamp < 3 * parsed then
         (case loc s idx of
            Inl e \<Rightarrow> Inl e
          | Inr rows \<Rightarrow>
              if length rows < 2 * length (filter (is_timelike L) rows) then
                Inr (True, fmt_percent L (mean_bool (map (is_timelike L) rows))
                           @ ''% of data appears parseable as datetime data'')
              else Inr (False, ''''))
       else Inr (False, ''''))"
    unfolding looks_timelike_def Let_def ci lc' same0 idx_def[symmetric] il sum.case cnt
      fraction_ge_one[OF npos] fraction_gt_third[OF npos] mean_bool_gt_half if_False fm length_map
    by (rule refl)
  have iff: "(\<exists>d. looks_timelike L perm s = Inr (True, d)) \<longleftrightarrow>
             parsed = n_subsamp \<or>
             (n_subsamp < 3 * parsed \<and>
              (\<exists>rows. loc s idx = Inr rows \<and>
                 length rows < 2 * length (filter (is_timelike L) rows)))"
    unfolding unfold using ple npos by (auto split: sum.splits)
  show "let N = length (cells s);
           n_subsamp = nat (min (int N) (max \<lceil>rat_of_nat N / 2\<rceil> 500));
           idx = take n_subsamp perm;
           parsed = length (filter (\<lambda>i. is_timelike L (as_str (cells s ! i))) idx)
       in length idx = n_subsamp \<and>
          ((\<exists>d. looks_timelike L perm s = Inr (True, d)) \<longleftrightarrow>
             parsed = n_subsamp \<or>
             (n_subsamp < 3 * parsed \<and>
              (\<exists>rows. loc s idx = Inr rows \<and>
                 length rows < 2 * length (filter (is_timelike L) rows))))"
    unfolding Let_def N_def[symmetric] n_subsamp_def[symmetric] idx_def[symmetric]
      parsed_def[symmetric]
    using lidx iff by simp
qed

lemma looks_timelike_decision_example:
  "converts_to_int (int_column [1, 2]) \<and>
   (\<exists>d. looks_timelike
           \<lparr> int_parses = (\<lambda>t. False), float_parses = (\<lambda>t. False),
             date_parses = (\<lambda>t. t \<noteq> ''x''), fmt_percent = (\<lambda>p. '' 66.67'') \<rparr>
           [1, 0] (int_column [1, 2]) = Inr (False, d)) \<and>
   \<not> converts_to_int (str_column (replicate 21 ''2020-01-01'')) \<and>
   \<not> converts_to_float (str_column (replicate 21 ''2020-01-01'')) \<and>
   set (astype_str (str_column (replicate 21 ''2020-01-01''))) = {''2020-01-01''} \<and>
   count_list (astype_str (str_column (replicate 21 ''2020-01-01''))) ''2020-01-01''
     > N_CAT_LEVEL_MIN \<and>
   looks_timelike
      \<lparr> int_parses = (\<lambda>t. False), float_parses = (\<lambda>t. False),
        date_parses = (\<lambda>t. t \<noteq> ''x''), fmt_percent = (\<lambda>p. '' 66.67'') \<rparr>
      [] (str_column (replicate 21 ''2020-01-01''))
     = Inr (False, ''Looks like well-sampled categorical'') \<and>
   \<not> converts_to_int (str_column [''2020-01-01'', ''2020-01-02'', ''x'']) \<and>
   \<not> converts_to_float (str_column [''2020-01-01'', ''2020-01-02'', ''x'']) \<and>
   \<not> (\<forall>l\<in>set (astype_str (str_column [''2020-01-01'', ''2020-01-02'', ''x''])).
        count_list (astype_str (str_column [''2020-01-01'', ''2020-01-02'', ''x''])) l
          > N_CAT_LEVEL_MIN) \<and>
   distinct [2, 0, 1 :: nat] \<and>
   set [2, 0, 1] = {0 ..< length (cells (str_column [''2020-01-01'', ''2020-01-02'', ''x'']))} \<and>
   (\<exists>d. looks_timelike
           \<lparr> int_parses = (\<lambda>t. False), float_parses = (\<lambda>t. False),
             date_parses = (\<lambda>t. t \<noteq> ''x''), fmt_percent = (\<lambda>p. '' 66.67'') \<rparr>
           [2, 0, 1] (str_column [''2020-01-01'', ''2020-01-02'', ''x'']) = Inr (True, d))"
proof -
  let ?L = "\<lparr> int_parses = (\<lambda>t. False), float_parses = (\<lambda>t. False),
             date_parses = (\<lambda>t. t \<noteq> ''x''), fmt_percent = (\<lambda>p. '' 66.67'') \<rparr>"
  let ?C = "str_column (replicate 21 ''2020-01-01'')"
  let ?T = "str_column [''2020-01-01'', ''2020-01-02'', ''x'']"
  have i: "converts_to_int (int_column [1, 2])" by code_simp
  have c1: "\<not> converts_to_int ?C" "\<not> converts_to_float ?C" by code_simp+
  have c2: "\<forall>l\<in>set (astype_str ?C). count_list (astype_str ?C) l > N_CAT_LEVEL_MIN"
    by code_simp
  have t1: "\<not> converts_to_int ?T" "\<not> converts_to_float ?T" by code_simp+
  have t2: "\<not> (\<forall>l\<in>set (astype_str ?T). count_list (astype_str ?T) l > N_CAT_LEVEL_MIN)"
    by code_simp
  have len: "length (cells ?T) = 3" by code_simp
  have t3: "distinct [2, 0, 1 :: nat]" "set [2, 0, 1] = {0 ..< length (cells ?T)}"
    unfolding len by auto
  have n: "nat (min (int (3::nat)) (max \<lceil>rat_of_nat 3 / 2\<rceil> 500)) = 3" by code_simp
  have rows: "loc ?T [2, 0, 1] = Inr [''x'', ''2020-01-01'', ''2020-01-02'']" by code_simp
  have parsed: "length (filter (\<lambda>i. is_timelike ?L (as_str (cells ?T ! i))) [2, 0, 1]) = 2"
    by code_simp
  have rate: "length (filter (is_timelike ?L) [''x'', ''2020-01-01'', ''2020-01-02'']) = 2"
    by code_simp
  have tk: "take 3 [2, 0, 1 :: nat] = [2, 0, 1]" by simp
  have ex: "\<exists>rows. loc ?T [2, 0, 1] = Inr rows \<and>
               length rows < 2 * length (filter (is_timelike ?L) rows)"
  proof (intro exI conjI)
    show "loc ?T [2, 0, 1] = Inr [''x'', ''2020-01-01'', ''2020-01-02'']" by (rule rows)
    show "length [''x'', ''2020-01-01'', ''2020-01-02'']
            < 2 * length (filter (is_timelike ?L) [''x'', ''2020-01-01'', ''2020-01-02''])"
      unfolding rate by simp
  qed
  have inst: "let N = length (cells ?T);
           n_subsamp = nat (min (int N) (max \<lceil>rat_of_nat N / 2\<rceil> 500));
           idx = take n_subsamp [2, 0, 1];
           parsed = length (filter (\<lambda>i. is_timelike ?L (as_str (cells ?T ! i))) idx)
       in length idx = n_subsamp \<and>
          ((\<exists>d. looks_timelike ?L [2, 0, 1] ?T = Inr (True, d)) \<longleftrightarrow>
             parsed = n_subsamp \<or>
             (n_subsamp < 3 * parsed \<and>
              (\<exists>rows. loc ?T idx = Inr rows \<and>
                 length rows < 2 * length (filter (is_timelike ?L) rows))))"
    using looks_timelike_decision[of ?T ?L "[2, 0, 1]"] t1 t2 t3 by blast
  have "length [2, 0, 1 :: nat] = 3 \<and>
          ((\<exists>d. looks_timelike ?L [2, 0, 1] ?T = Inr (True, d)) \<longleftrightarrow>
             (2::nat) = 3 \<or>
             ((3::nat) < 3 * 2 \<and>
              (\<exists>rows. loc ?T [2, 0, 1] = Inr rows \<and>
                 length rows < 2 * length (filter (is_timelike ?L) rows))))"
    using inst unfolding Let_def len n tk parsed .
  moreover have "(3::nat) < 3 * 2" by simp
  ultimately have t: "\<exists>d. looks_timelike ?L [2, 0, 1] ?T = Inr (True, d)"
    using ex by blast
  from looks_timelike_decision[of "int_column [1, 2]" ?L "[1, 0]"] i
  have a: "\<exists>d. looks_timelike ?L [1, 0] (int_column [1, 2]) = Inr (False, d)" by blast
  from looks_timelike_decision[of ?C ?L "[]"] c1 c2
  have b: "looks_timelike ?L [] ?C = Inr (False, ''Looks like well-sampled categorical'')"
    by blast
  have c3: "set (astype_str ?C) = {''2020-01-01''}" by code_simp
  have c4: "count_list (astype_str ?C) ''2020-01-01'' > N_CAT_LEVEL_MIN" by code_simp
  from i a c1 c3 c4 b t1 t2 t3 t show ?thesis by blast
qed

subsection \<open>Ambiguity between ordinal and categorical\<close>




end
